theory Spec2Isabelle
  imports Complex_Main
begin

section \<open>Numbers and JavaScript maps\<close>

text \<open>
  The engines compute on JavaScript numbers. They are modelled as \<^typ>\<open>real\<close>: the
  statements below are about exact arithmetic, without rounding, NaN or infinities, except
  where they name the rounded discrete engine (suffix \<open>_fl\<close>), which rounds the result of
  every operation as IEEE 754 double arithmetic does. None of the
  modelled divisions can have a zero divisor: each is guarded in the source by a test of the
  divisor (\<^verbatim>\<open>totalAllocation === 0\<close>, \<^verbatim>\<open>totalCapacity === 0\<close>, \<^verbatim>\<open>buildingRange === 0\<close>) or by a
  positive summand of it.

  A JavaScript \<^verbatim>\<open>Map\<close> keeps its keys in insertion order and \<^verbatim>\<open>set\<close> overwrites the value of
  a key that is present, in place. It is modelled as an association list.
\<close>

type_synonym ('k, 'v) js_map = "('k \<times> 'v) list"

fun map_set :: "'k \<Rightarrow> 'v \<Rightarrow> ('k, 'v) js_map \<Rightarrow> ('k, 'v) js_map" where
  "map_set k v [] = [(k, v)]"
| "map_set k v (e # m) = (if fst e = k then (k, v) # m else e # map_set k v m)"

definition map_get :: "('k, 'v) js_map \<Rightarrow> 'k \<Rightarrow> 'v option" where
  "map_get m k = map_of m k"

definition new_Map :: "('k \<times> 'v) list \<Rightarrow> ('k, 'v) js_map" where
  "new_Map entries = foldl (\<lambda>m e. map_set (fst e) (snd e) m) [] entries"

definition map_values :: "('k, 'v) js_map \<Rightarrow> 'v list" where
  "map_values m = map snd m"

text \<open>\<^verbatim>\<open>x || 0\<close> on an optional number: an absent value (and 0) reads as 0.\<close>

definition or0 :: "real option \<Rightarrow> real" where
  "or0 v = (case v of None \<Rightarrow> 0 | Some r \<Rightarrow> r)"

section \<open>Discrete engine: \<^verbatim>\<open>lib/flow-funding/types.ts\<close> and \<^verbatim>\<open>engine.ts\<close>\<close>

record account =
  id_acc :: string
  name_acc :: string
  balance :: real
  minThreshold :: real
  maxThreshold :: real
  allocations :: "(string, real) js_map"

record IterationResult =
  iteration :: nat
  balances :: "(string, real) js_map"
  overflows :: "(string, real) js_map"
  totalOverflow :: real
  flows :: "(string, real) js_map"
  converged_it :: bool

record DistributionResult =
  initialBalances :: "(string, real) js_map"
  finalBalances :: "(string, real) js_map"
  iterations :: "IterationResult list"
  converged :: bool
  totalFunding :: real
  iterationCount :: nat

text \<open>
  The configuration after the defaults have been merged in. \<^verbatim>\<open>verbose\<close> only switches
  console output, which is not modelled.
\<close>

record DistributionConfig =
  maxIterations :: nat
  epsilon :: real
  verbose :: bool

definition DEFAULT_CONFIG :: DistributionConfig where
  "DEFAULT_CONFIG = \<lparr>maxIterations = 100, epsilon = 1 / 100, verbose = False\<rparr>"

text \<open>
  The messages pushed on \<^verbatim>\<open>errors\<close> and \<^verbatim>\<open>warnings\<close>, one constructor for each template
  string, holding the values the template interpolates.
\<close>

datatype verror =
    EmptyNetwork
  | MinNegative string
  | MaxNegative string
  | MinExceedsMax string real real
  | PrincipalNegative string
  | AllocationOutOfRange string string
  | TargetMissing string string
  | SelfAllocation string
  | TotalExceeds string real

datatype vwarning =
    NoOutgoing string
  | NoIncomingZeroBalance string

record ValidationResult =
  valid :: bool
  errors :: "verror list"
  warnings :: "vwarning list"

datatype error = InvalidNetwork "verror list"

text \<open>The running sum \<^verbatim>\<open>totalAllocation += percentage\<close> over the entries of a map.\<close>

definition totalAllocation :: "(string, real) js_map \<Rightarrow> real" where
  "totalAllocation al = foldl (\<lambda>s e. s + snd e) 0 al"

text \<open>The three checks made on one entry of \<^verbatim>\<open>account.allocations\<close>.\<close>

definition allocation_errors :: "string list \<Rightarrow> string \<Rightarrow> string \<times> real \<Rightarrow> verror list" where
  "allocation_errors ids aid e =
     (if snd e < 0 \<or> snd e > 100 then [AllocationOutOfRange aid (fst e)] else []) @
     (if fst e \<notin> set ids then [TargetMissing aid (fst e)] else []) @
     (if fst e = aid then [SelfAllocation aid] else [])"

definition account_errors :: "string list \<Rightarrow> account \<Rightarrow> verror list" where
  "account_errors ids a =
     (if minThreshold a < 0 then [MinNegative (id_acc a)] else []) @
     (if maxThreshold a < 0 then [MaxNegative (id_acc a)] else []) @
     (if minThreshold a > maxThreshold a
      then [MinExceedsMax (id_acc a) (minThreshold a) (maxThreshold a)] else []) @
     (if balance a < 0 then [PrincipalNegative (id_acc a)] else []) @
     concat (map (allocation_errors ids (id_acc a)) (allocations a)) @
     (if totalAllocation (allocations a) > 10001 / 100
      then [TotalExceeds (id_acc a) (totalAllocation (allocations a))] else [])"

definition account_warnings :: "account list \<Rightarrow> account \<Rightarrow> vwarning list" where
  "account_warnings accounts a =
     (if allocations a = [] \<and> length accounts > 1 then [NoOutgoing (id_acc a)] else []) @
     (if \<not> list_ex (\<lambda>b. id_acc a \<in> set (map fst (allocations b))) accounts \<and> balance a = 0
      then [NoIncomingZeroBalance (id_acc a)] else [])"

definition validateNetwork :: "account list \<Rightarrow> ValidationResult" where
  "validateNetwork accounts =
     (if accounts = [] then \<lparr>valid = False, errors = [EmptyNetwork], warnings = []\<rparr>
      else
        let accountIds = map id_acc accounts;
            errs = concat (map (account_errors accountIds) accounts);
            warns = concat (map (account_warnings accounts) accounts)
        in \<lparr>valid = (errs = []), errors = errs, warnings = warns\<rparr>)"

text \<open>
  The loop shared by \<^verbatim>\<open>distributeInitial\<close> (shortfalls, capacities) and \<^verbatim>\<open>calculateOverflow\<close>:
  for every account whose amount is positive, store the amount under the account's id and add
  it to the running total.
\<close>

definition collect_positive ::
  "(account \<Rightarrow> real) \<Rightarrow> account list \<Rightarrow> (string, real) js_map \<times> real" where
  "collect_positive amount accounts =
     foldl (\<lambda>acc a. if amount a > 0
                     then (map_set (id_acc a) (amount a) (fst acc), snd acc + amount a)
                     else acc)
       ([], 0) accounts"

definition shortfall_of :: "account \<Rightarrow> real" where
  "shortfall_of a = max 0 (minThreshold a - balance a)"

definition capacity_of :: "account \<Rightarrow> real" where
  "capacity_of a = max 0 (maxThreshold a - balance a)"

definition overflow_of :: "account \<Rightarrow> real" where
  "overflow_of a = max 0 (balance a - maxThreshold a)"

text \<open>Step 1 of the second case of \<^verbatim>\<open>distributeInitial\<close>: fill all minimums.\<close>

definition fill_minimums :: "account list \<Rightarrow> account list" where
  "fill_minimums accounts =
     (let minShortfalls = fst (collect_positive shortfall_of accounts)
      in map (\<lambda>a. let shortfall = or0 (map_get minShortfalls (id_acc a))
                   in if shortfall > 0 then a\<lparr>balance := minThreshold a\<rparr> else a)
           accounts)"

definition distributeInitial :: "account list \<Rightarrow> real \<Rightarrow> account list" where
  "distributeInitial accounts funding =
     (let minShortfalls = fst (collect_positive shortfall_of accounts);
          totalMinRequired = snd (collect_positive shortfall_of accounts)
      in
        if funding < totalMinRequired then
          map (\<lambda>a. let shortfall = or0 (map_get minShortfalls (id_acc a))
                    in if shortfall > 0
                       then a\<lparr>balance := balance a + (shortfall / totalMinRequired) * funding\<rparr>
                       else a) accounts
        else
          let filled = fill_minimums accounts;
              remaining = funding - totalMinRequired
          in
            if remaining \<le> 0 then filled
            else
              let capacities = fst (collect_positive capacity_of filled);
                  totalCapacity = snd (collect_positive capacity_of filled)
              in
                if totalCapacity = 0 then filled
                else
                  map (\<lambda>a. let capacity = or0 (map_get capacities (id_acc a))
                            in if capacity > 0
                               then a\<lparr>balance := balance a + (capacity / totalCapacity) * remaining\<rparr>
                               else a) filled)"

text \<open>
  \<^verbatim>\<open>calculateOverflow\<close> returns the map of overflows and clamps, in place, every account that
  has overflow. The model returns the accounts after the call and the map.
\<close>

definition clamp :: "account \<Rightarrow> account" where
  "clamp a = (if overflow_of a > 0 then a\<lparr>balance := maxThreshold a\<rparr> else a)"

definition calculateOverflow :: "account list \<Rightarrow> account list \<times> (string, real) js_map" where
  "calculateOverflow accounts =
     (map clamp accounts, fst (collect_positive overflow_of accounts))"

text \<open>
  \<^verbatim>\<open>accountMap = new Map(accounts.map(a => [a.id, a]))\<close> maps an id to the account object that
  carries it last in the array. \<^verbatim>\<open>accountMap.get\<close> reads that object, and
  \<^verbatim>\<open>target.balance += amount\<close> writes into it.
\<close>

fun accountMap_get :: "account list \<Rightarrow> string \<Rightarrow> account option" where
  "accountMap_get [] k = None"
| "accountMap_get (a # as) k =
     (case accountMap_get as k of
        Some b \<Rightarrow> Some b
      | None \<Rightarrow> if id_acc a = k then Some a else None)"

fun add_balance :: "string \<Rightarrow> real \<Rightarrow> account list \<Rightarrow> account list" where
  "add_balance k amount [] = []"
| "add_balance k amount (a # as) =
     (if k \<in> set (map id_acc as) then a # add_balance k amount as
      else if id_acc a = k then a\<lparr>balance := balance a + amount\<rparr> # as
      else a # as)"

definition flow_key :: "string \<Rightarrow> string \<Rightarrow> string" where
  "flow_key sourceId targetId = sourceId @ ''->'' @ targetId"

text \<open>The body of the inner loop of \<^verbatim>\<open>redistributeOverflow\<close>, for one allocation entry.\<close>

definition transfer ::
  "string \<Rightarrow> real \<Rightarrow> real \<Rightarrow> account list \<times> (string, real) js_map \<Rightarrow> string \<times> real
   \<Rightarrow> account list \<times> (string, real) js_map" where
  "transfer sourceId overflow totalWeight st e =
     (case accountMap_get (fst st) (fst e) of
        None \<Rightarrow> st
      | Some target \<Rightarrow>
          let normalizedPercentage = snd e / totalWeight;
              amount = overflow * normalizedPercentage
          in (add_balance (fst e) amount (fst st),
              map_set (flow_key sourceId (fst e)) amount (snd st)))"

text \<open>The body of the outer loop, for one entry of \<^verbatim>\<open>overflows\<close>.\<close>

definition redistribute_source ::
  "account list \<times> (string, real) js_map \<Rightarrow> string \<times> real
   \<Rightarrow> account list \<times> (string, real) js_map" where
  "redistribute_source st so =
     (case accountMap_get (fst st) (fst so) of
        None \<Rightarrow> st
      | Some source \<Rightarrow>
          if totalAllocation (allocations source) = 0 then st
          else foldl (transfer (fst so) (snd so) (totalAllocation (allocations source))) st
                 (allocations source))"

definition redistributeOverflow ::
  "account list \<Rightarrow> (string, real) js_map \<Rightarrow> account list \<times> (string, real) js_map" where
  "redistributeOverflow accounts ovs = foldl redistribute_source (accounts, []) ovs"

definition snapshot :: "account list \<Rightarrow> (string, real) js_map" where
  "snapshot accounts = new_Map (map (\<lambda>a. (id_acc a, balance a)) accounts)"

text \<open>
  The loop \<^verbatim>\<open>for (let i = 0; i < maxIterations; i++)\<close> of \<^verbatim>\<open>runDistribution\<close>. The first
  argument is the number of rounds left, \<^verbatim>\<open>maxIterations - i\<close>. The result is the accounts
  after the loop, the records pushed on \<^verbatim>\<open>iterations\<close> from round \<^verbatim>\<open>i\<close> on, and \<^verbatim>\<open>converged\<close>.
\<close>

fun overflow_rounds ::
  "nat \<Rightarrow> nat \<Rightarrow> real \<Rightarrow> account list \<Rightarrow> account list \<times> IterationResult list \<times> bool" where
  "overflow_rounds 0 i eps accounts = (accounts, [], False)"
| "overflow_rounds (Suc n) i eps accounts =
     (let clamped = fst (calculateOverflow accounts);
          ovs = snd (calculateOverflow accounts);
          total_ov = foldl (\<lambda>s v. s + v) 0 (map_values ovs);
          record_i = \<lparr>iteration = i, balances = snapshot clamped, overflows = ovs,
                      totalOverflow = total_ov, flows = [], converged_it = (total_ov < eps)\<rparr>
      in
        if total_ov < eps then (clamped, [record_i], True)
        else
          let redistributed = redistributeOverflow clamped ovs;
              rest = overflow_rounds n (Suc i) eps (fst redistributed)
          in (fst rest, record_i\<lparr>flows := snd redistributed\<rparr> # fst (snd rest), snd (snd rest)))"

text \<open>
  \<^verbatim>\<open>runDistribution\<close> mutates the caller's accounts and either throws or returns a result.
  The model returns the accounts as they are when the call ends, and the outcome.
\<close>

definition runDistribution ::
  "account list \<Rightarrow> real \<Rightarrow> DistributionConfig \<Rightarrow> account list \<times> (error + DistributionResult)" where
  "runDistribution accounts funding cfg =
     (let validation = validateNetwork accounts
      in
        if \<not> valid validation then (accounts, Inl (InvalidNetwork (errors validation)))
        else
          let initial = snapshot accounts;
              distributed = distributeInitial accounts funding;
              looped = overflow_rounds (maxIterations cfg) 0 (epsilon cfg) distributed
          in (fst looped,
              Inr \<lparr>initialBalances = initial,
                   finalBalances = snapshot (fst looped),
                   iterations = fst (snd looped),
                   converged = snd (snd looped),
                   totalFunding = funding,
                   iterationCount = length (fst (snd looped))\<rparr>))"

section \<open>Targeted distribution: \<^verbatim>\<open>lib/flow-funding/targeted.ts\<close>\<close>

text \<open>
  \<^verbatim>\<open>runTargetedDistribution\<close> repeats the loop of \<^verbatim>\<open>runDistribution\<close> inline. Its overflow pass
  adds up \<^verbatim>\<open>totalOverflow\<close> account by account, and its redistribution pass is the text of
  \<^verbatim>\<open>redistributeOverflow\<close>. There is no call of \<^verbatim>\<open>validateNetwork\<close> and no \<^verbatim>\<open>throw\<close>.
\<close>

fun targeted_rounds ::
  "nat \<Rightarrow> nat \<Rightarrow> real \<Rightarrow> account list \<Rightarrow> account list \<times> IterationResult list \<times> bool" where
  "targeted_rounds 0 i eps accounts = (accounts, [], False)"
| "targeted_rounds (Suc n) i eps accounts =
     (let ovs = fst (collect_positive overflow_of accounts);
          total_ov = snd (collect_positive overflow_of accounts);
          clamped = map clamp accounts;
          record_i = \<lparr>iteration = i, balances = snapshot clamped, overflows = ovs,
                      totalOverflow = total_ov, flows = [], converged_it = (total_ov < eps)\<rparr>
      in
        if total_ov < eps then (clamped, [record_i], True)
        else
          let redistributed = redistributeOverflow clamped ovs;
              rest = targeted_rounds n (Suc i) eps (fst redistributed)
          in (fst rest, record_i\<lparr>flows := snd redistributed\<rparr> # fst (snd rest), snd (snd rest)))"

definition runTargetedDistribution ::
  "account list \<Rightarrow> DistributionConfig \<Rightarrow> account list \<times> DistributionResult" where
  "runTargetedDistribution accounts cfg =
     (let initial = snapshot accounts;
          looped = targeted_rounds (maxIterations cfg) 0 (epsilon cfg) accounts
      in (fst looped,
          \<lparr>initialBalances = initial,
           finalBalances = snapshot (fst looped),
           iterations = fst (snd looped),
           converged = snd (snd looped),
           totalFunding = 0,
           iterationCount = length (fst (snd looped))\<rparr>))"

section \<open>Continuous engine: \<^verbatim>\<open>lib/flow-v2/types.ts\<close> and \<^verbatim>\<open>engine-v2.ts\<close>\<close>

record FlowNode =
  id_node :: string
  name_node :: string
  externalInflow :: real
  minThreshold_node :: real
  maxThreshold_node :: real
  allocations_node :: "(string, real) js_map"
  totalInflow :: "real option"
  totalOutflow :: "real option"
  balance_node :: "real option"

datatype FlowZone = ZoneDeficit | ZoneBuilding | ZoneCapacity

record FlowEdge =
  source :: string
  target :: string
  flowRate :: real
  percentage :: real

record OverflowNode =
  id_overflow :: string
  totalInflow_overflow :: real

record FlowNetwork =
  nodes :: "(string, FlowNode) js_map"
  edges :: "FlowEdge list"
  overflowNode :: "OverflowNode option"
  totalExternalInflow :: real
  totalNetworkCapacity :: real
  totalNetworkNeeds :: real
  converged_net :: bool
  iterations_net :: nat

record FlowConfig =
  maxIterations_v2 :: nat
  epsilon_v2 :: real
  verbose_v2 :: bool

definition DEFAULT_CONFIG_v2 :: FlowConfig where
  "DEFAULT_CONFIG_v2 = \<lparr>maxIterations_v2 = 1000, epsilon_v2 = 1 / 1000, verbose_v2 = False\<rparr>"

definition getFlowZone :: "FlowNode \<Rightarrow> FlowZone" where
  "getFlowZone node =
     (let inflow = or0 (totalInflow node);
          capacityThreshold = (3 / 2) * maxThreshold_node node
      in if inflow < minThreshold_node node then ZoneDeficit
         else if inflow < capacityThreshold then ZoneBuilding
         else ZoneCapacity)"

definition calculateOutflow :: "FlowNode \<Rightarrow> real" where
  "calculateOutflow node =
     (let inflow = or0 (totalInflow node);
          capacityThreshold = (3 / 2) * maxThreshold_node node
      in
        if inflow < minThreshold_node node then 0
        else if inflow \<ge> capacityThreshold then inflow - maxThreshold_node node
        else
          let buildingRange = capacityThreshold - minThreshold_node node
          in
            if buildingRange = 0 then inflow - maxThreshold_node node
            else
              let excess = inflow - minThreshold_node node;
                  targetOutflow = (1 / 2) * maxThreshold_node node
              in (excess / buildingRange) * targetOutflow)"

definition node_errors :: "string list \<Rightarrow> FlowNode \<Rightarrow> verror list" where
  "node_errors ids n =
     (if minThreshold_node n < 0 then [MinNegative (id_node n)] else []) @
     (if maxThreshold_node n < 0 then [MaxNegative (id_node n)] else []) @
     (if minThreshold_node n > maxThreshold_node n
      then [MinExceedsMax (id_node n) (minThreshold_node n) (maxThreshold_node n)] else []) @
     (if externalInflow n < 0 then [PrincipalNegative (id_node n)] else []) @
     concat (map (allocation_errors ids (id_node n)) (allocations_node n)) @
     (if totalAllocation (allocations_node n) > 10001 / 100
      then [TotalExceeds (id_node n) (totalAllocation (allocations_node n))] else [])"

definition node_warnings :: "FlowNode list \<Rightarrow> FlowNode \<Rightarrow> vwarning list" where
  "node_warnings ns n =
     (if allocations_node n = [] \<and> length ns > 1 then [NoOutgoing (id_node n)] else [])"

definition validateNetwork_v2 :: "FlowNode list \<Rightarrow> ValidationResult" where
  "validateNetwork_v2 ns =
     (if ns = [] then \<lparr>valid = False, errors = [EmptyNetwork], warnings = []\<rparr>
      else
        let nodeIds = map id_node ns;
            errs = concat (map (node_errors nodeIds) ns);
            warns = concat (map (node_warnings ns) ns)
        in \<lparr>valid = (errs = []), errors = errs, warnings = warns\<rparr>)"

text \<open>
  One pass of the loop \<^verbatim>\<open>for (const source of nodes)\<close> that adds the allocated flows of one
  source to \<^verbatim>\<open>newInflows\<close>. \<^verbatim>\<open>nodeMap.get(targetId)\<close> is defined when some node has that id.
\<close>

definition add_flows ::
  "FlowNode list \<Rightarrow> (string, real) js_map \<Rightarrow> FlowNode \<Rightarrow> (string, real) js_map" where
  "add_flows ns newInflows src =
     (let outflow = or0 (totalOutflow src)
      in
        if outflow > 0 then
          let totalWeight = totalAllocation (allocations_node src)
          in
            if totalWeight > 0 then
              foldl (\<lambda>m e. if fst e \<in> set (map id_node ns)
                            then map_set (fst e)
                                   (or0 (map_get m (fst e)) + outflow * (snd e / totalWeight)) m
                            else m)
                newInflows (allocations_node src)
            else newInflows
        else newInflows)"

text \<open>
  One round of the fixed-point loop: the nodes after the round and \<^verbatim>\<open>maxChange\<close>. The array is
  taken to hold distinct objects.
\<close>

definition flow_round :: "FlowNode list \<Rightarrow> FlowNode list \<times> real" where
  "flow_round ns =
     (let outs = map (\<lambda>n. n\<lparr>totalOutflow := Some (calculateOutflow n)\<rparr>) ns;
          externals = foldl (\<lambda>m n. map_set (id_node n) (externalInflow n) m) [] outs;
          newInflows = foldl (add_flows outs) externals outs;
          maxChange = foldl (\<lambda>mc n. max mc
                         \<bar>or0 (map_get newInflows (id_node n)) - or0 (totalInflow n)\<bar>) 0 outs;
          updated = map (\<lambda>n. n\<lparr>totalInflow := Some (or0 (map_get newInflows (id_node n)))\<rparr>) outs
      in (updated, maxChange))"

text \<open>
  The loop \<^verbatim>\<open>for (let i = 0; i < maxIterations; i++)\<close> of \<^verbatim>\<open>calculateSteadyState\<close>: rounds
  left, the counter \<^verbatim>\<open>iterations\<close>, epsilon and the nodes.
\<close>

fun steady_rounds :: "nat \<Rightarrow> nat \<Rightarrow> real \<Rightarrow> FlowNode list \<Rightarrow> FlowNode list \<times> bool \<times> nat" where
  "steady_rounds 0 iters eps ns = (ns, False, iters)"
| "steady_rounds (Suc n) iters eps ns =
     (if snd (flow_round ns) < eps then (fst (flow_round ns), True, Suc iters)
      else steady_rounds n (Suc iters) eps (fst (flow_round ns)))"

definition edges_of :: "FlowNode \<Rightarrow> FlowEdge list" where
  "edges_of src =
     (let outflow = or0 (totalOutflow src)
      in
        if outflow > 0 then
          let totalWeight = totalAllocation (allocations_node src)
          in
            if totalWeight > 0 then
              concat (map (\<lambda>e. let rate = outflow * (snd e / totalWeight)
                                in if rate > 0
                                   then [\<lparr>source = id_node src, target = fst e,
                                           flowRate = rate, percentage = snd e\<rparr>]
                                   else [])
                        (allocations_node src))
            else []
        else [])"

definition unallocated :: "FlowNode \<Rightarrow> real" where
  "unallocated node =
     (let outflow = or0 (totalOutflow node);
          unallocatedPercentage = max 0 (100 - totalAllocation (allocations_node node))
      in (outflow * unallocatedPercentage) / 100)"

definition calculateSteadyState ::
  "FlowNode list \<Rightarrow> FlowConfig \<Rightarrow> FlowNode list \<times> (error + FlowNetwork)" where
  "calculateSteadyState ns cfg =
     (let validation = validateNetwork_v2 ns
      in
        if \<not> valid validation then (ns, Inl (InvalidNetwork (errors validation)))
        else
          let started = map (\<lambda>n. n\<lparr>totalInflow := Some (externalInflow n),
                                     totalOutflow := Some 0, balance_node := Some 0\<rparr>) ns;
              looped = steady_rounds (maxIterations_v2 cfg) 0 (epsilon_v2 cfg) started;
              final = fst looped;
              totalUnallocatedOverflow = foldl (\<lambda>s n. s + unallocated n) 0 final
          in (final,
              Inr \<lparr>nodes = new_Map (map (\<lambda>n. (id_node n, n)) final),
                   edges = concat (map edges_of final),
                   overflowNode =
                     (if totalUnallocatedOverflow > epsilon_v2 cfg
                      then Some \<lparr>id_overflow = ''overflow'',
                                 totalInflow_overflow = totalUnallocatedOverflow\<rparr>
                      else None),
                   totalExternalInflow = foldl (\<lambda>s n. s + externalInflow n) 0 final,
                   totalNetworkCapacity = foldl (\<lambda>s n. s + maxThreshold_node n) 0 final,
                   totalNetworkNeeds = foldl (\<lambda>s n. s + minThreshold_node n) 0 final,
                   converged_net = fst (snd looped),
                   iterations_net = snd (snd looped)\<rparr>))"

section \<open>Immutable variant: \<^verbatim>\<open>lib/tbff\<close> (types, utils, algorithms)\<close>

datatype AccountStatus = StatusDeficit | StatusMinimum | StatusHealthy | StatusOverflow

record FlowFundingAccount =
  id_ffa :: string
  name_ffa :: string
  balance_ffa :: real
  minThreshold_ffa :: real
  maxThreshold_ffa :: real
  x_ffa :: real
  y_ffa :: real
  width_ffa :: real
  height_ffa :: real
  status :: AccountStatus
  shortfall :: real
  capacity :: real
  overflow :: real

record Allocation =
  id_alloc :: string
  sourceAccountId :: string
  targetAccountId :: string
  percentage_alloc :: real

record FlowFundingNetwork =
  name_net :: string
  accounts_net :: "FlowFundingAccount list"
  allocations_net :: "Allocation list"
  totalFunds :: real
  totalShortfall :: real
  totalCapacity :: real
  totalOverflow_net :: real

definition getAccountStatus :: "FlowFundingAccount \<Rightarrow> AccountStatus" where
  "getAccountStatus a =
     (if balance_ffa a < minThreshold_ffa a then StatusDeficit
      else if balance_ffa a \<ge> maxThreshold_ffa a then StatusOverflow
      else if \<bar>balance_ffa a - minThreshold_ffa a\<bar> < 1 / 100 then StatusMinimum
      else StatusHealthy)"

definition calculateShortfall :: "FlowFundingAccount \<Rightarrow> real" where
  "calculateShortfall a = max 0 (minThreshold_ffa a - balance_ffa a)"

definition calculateCapacity :: "FlowFundingAccount \<Rightarrow> real" where
  "calculateCapacity a = max 0 (maxThreshold_ffa a - balance_ffa a)"

definition calculateOverflow_ffa :: "FlowFundingAccount \<Rightarrow> real" where
  "calculateOverflow_ffa a = max 0 (balance_ffa a - maxThreshold_ffa a)"

definition updateAccountComputedProperties :: "FlowFundingAccount \<Rightarrow> FlowFundingAccount" where
  "updateAccountComputedProperties a =
     a\<lparr>status := getAccountStatus a,
       shortfall := calculateShortfall a,
       capacity := calculateCapacity a,
       overflow := calculateOverflow_ffa a\<rparr>"

definition calculateNetworkTotals :: "FlowFundingNetwork \<Rightarrow> FlowFundingNetwork" where
  "calculateNetworkTotals network =
     network\<lparr>totalFunds := foldl (\<lambda>s a. s + balance_ffa a) 0 (accounts_net network),
             totalShortfall := foldl (\<lambda>s a. s + shortfall a) 0 (accounts_net network),
             totalCapacity := foldl (\<lambda>s a. s + capacity a) 0 (accounts_net network),
             totalOverflow_net := foldl (\<lambda>s a. s + overflow a) 0 (accounts_net network)\<rparr>"

definition distributeProportionallyByShortfall ::
  "FlowFundingNetwork \<Rightarrow> real \<Rightarrow> real \<Rightarrow> FlowFundingNetwork" where
  "distributeProportionallyByShortfall network funding shortfallSum =
     calculateNetworkTotals
       (network\<lparr>accounts_net :=
          map (\<lambda>a. let sf = max 0 (minThreshold_ffa a - balance_ffa a)
                    in if sf = 0 then a
                       else updateAccountComputedProperties
                              (a\<lparr>balance_ffa := balance_ffa a + (sf / shortfallSum) * funding\<rparr>))
            (accounts_net network)\<rparr>)"

definition fillAllMinimums :: "FlowFundingNetwork \<Rightarrow> FlowFundingNetwork" where
  "fillAllMinimums network =
     calculateNetworkTotals
       (network\<lparr>accounts_net :=
          map (\<lambda>a. let sf = max 0 (minThreshold_ffa a - balance_ffa a)
                    in if sf = 0 then a
                       else updateAccountComputedProperties (a\<lparr>balance_ffa := minThreshold_ffa a\<rparr>))
            (accounts_net network)\<rparr>)"

definition distributeEvenly :: "FlowFundingNetwork \<Rightarrow> real \<Rightarrow> FlowFundingNetwork" where
  "distributeEvenly network funding =
     (let perAccount = funding / real (length (accounts_net network))
      in calculateNetworkTotals
           (network\<lparr>accounts_net :=
              map (\<lambda>a. updateAccountComputedProperties
                          (a\<lparr>balance_ffa := balance_ffa a + perAccount\<rparr>))
                (accounts_net network)\<rparr>))"

definition distributeByCapacity :: "FlowFundingNetwork \<Rightarrow> real \<Rightarrow> FlowFundingNetwork" where
  "distributeByCapacity network funding =
     (if funding \<le> 0 then network
      else
        let capacitySum = foldl (\<lambda>s a. s + max 0 (maxThreshold_ffa a - balance_ffa a)) 0
                            (accounts_net network)
        in
          if capacitySum = 0 then distributeEvenly network funding
          else
            calculateNetworkTotals
              (network\<lparr>accounts_net :=
                 map (\<lambda>a. let cap = max 0 (maxThreshold_ffa a - balance_ffa a)
                           in if cap = 0 then a
                              else updateAccountComputedProperties
                                     (a\<lparr>balance_ffa := balance_ffa a + (cap / capacitySum) * funding\<rparr>))
                   (accounts_net network)\<rparr>))"

definition initialDistribution :: "FlowFundingNetwork \<Rightarrow> real \<Rightarrow> FlowFundingNetwork" where
  "initialDistribution network externalFunding =
     (if externalFunding \<le> 0 then network
      else
        let shortfallSum = foldl (\<lambda>s a. s + max 0 (minThreshold_ffa a - balance_ffa a)) 0
                             (accounts_net network)
        in
          if externalFunding < shortfallSum
          then distributeProportionallyByShortfall network externalFunding shortfallSum
          else
            let afterMinimums = fillAllMinimums network;
                remainingFunds = externalFunding - shortfallSum
            in distributeByCapacity afterMinimums remainingFunds)"

section \<open>Discrete engine in IEEE 754 double arithmetic\<close>

text \<open>
  A JavaScript number is an IEEE 754 binary64 value, and each \<^verbatim>\<open>+\<close>, \<^verbatim>\<open>-\<close>, \<^verbatim>\<open>*\<close> and \<^verbatim>\<open>/\<close> of
  the source returns the exact result rounded to the nearest such value, ties to the even
  significand. \<open>round64\<close> is that rounding, on the reals: a finite double with binary exponent
  \<open>e\<close> is an integer multiple of \<open>2 ^ (e - 52)\<close>, and the exponent used is never below \<open>- 1022\<close>,
  which gives the subnormal values their fixed spacing. The exponent is found by repeated
  halving or doubling; the bounds 1024 and 1074 cover every finite double. Results beyond the
  largest double, NaN, the infinities and the sign of zero are not modelled.
\<close>

definition pow2 :: "int \<Rightarrow> real" where
  "pow2 e = (if 0 \<le> e then 2 ^ nat e else 1 / 2 ^ nat (- e))"

fun halvings :: "nat \<Rightarrow> real \<Rightarrow> int" where
  "halvings 0 x = 0"
| "halvings (Suc n) x = (if x < 2 then 0 else 1 + halvings n (x / 2))"

fun doublings :: "nat \<Rightarrow> real \<Rightarrow> int" where
  "doublings 0 x = 0"
| "doublings (Suc n) x = (if 1 \<le> x then 0 else doublings n (2 * x) - 1)"

definition exponent :: "real \<Rightarrow> int" where
  "exponent x = (if 1 \<le> \<bar>x\<bar> then halvings 1024 \<bar>x\<bar> else doublings 1074 \<bar>x\<bar>)"

definition round_half_even :: "real \<Rightarrow> int" where
  "round_half_even x =
     (if x - of_int \<lfloor>x\<rfloor> < 1 / 2 then \<lfloor>x\<rfloor>
      else if 1 / 2 < x - of_int \<lfloor>x\<rfloor> then \<lfloor>x\<rfloor> + 1
      else if even \<lfloor>x\<rfloor> then \<lfloor>x\<rfloor> else \<lfloor>x\<rfloor> + 1)"

definition round64 :: "real \<Rightarrow> real" where
  "round64 x =
     (if x = 0 then 0
      else of_int (round_half_even (x / pow2 (max (exponent x) (- 1022) - 52)))
           * pow2 (max (exponent x) (- 1022) - 52))"

text \<open>
  The definitions below repeat those of the discrete engine with a rounding \<open>r\<close> applied to the
  result of every arithmetic operation of the source. \<^verbatim>\<open>Math.max\<close>, the comparisons and the
  assignments of a threshold to a balance are exact. With the identity for \<open>r\<close> they are the
  definitions of the exact model, and with \<open>round64\<close> they compute, on numbers that are
  doubles, what the program computes. The literal \<^verbatim>\<open>100.01\<close> is the double nearest to it.
\<close>

definition totalAllocation_fl :: "(real \<Rightarrow> real) \<Rightarrow> (string, real) js_map \<Rightarrow> real" where
  "totalAllocation_fl r al = foldl (\<lambda>s e. r (s + snd e)) 0 al"

definition account_errors_fl :: "(real \<Rightarrow> real) \<Rightarrow> string list \<Rightarrow> account \<Rightarrow> verror list" where
  "account_errors_fl r ids a =
     (if minThreshold a < 0 then [MinNegative (id_acc a)] else []) @
     (if maxThreshold a < 0 then [MaxNegative (id_acc a)] else []) @
     (if minThreshold a > maxThreshold a
      then [MinExceedsMax (id_acc a) (minThreshold a) (maxThreshold a)] else []) @
     (if balance a < 0 then [PrincipalNegative (id_acc a)] else []) @
     concat (map (allocation_errors ids (id_acc a)) (allocations a)) @
     (if totalAllocation_fl r (allocations a) > r (10001 / 100)
      then [TotalExceeds (id_acc a) (totalAllocation_fl r (allocations a))] else [])"

definition validateNetwork_fl :: "(real \<Rightarrow> real) \<Rightarrow> account list \<Rightarrow> ValidationResult" where
  "validateNetwork_fl r accounts =
     (if accounts = [] then \<lparr>valid = False, errors = [EmptyNetwork], warnings = []\<rparr>
      else
        let accountIds = map id_acc accounts;
            errs = concat (map (account_errors_fl r accountIds) accounts);
            warns = concat (map (account_warnings accounts) accounts)
        in \<lparr>valid = (errs = []), errors = errs, warnings = warns\<rparr>)"

definition collect_positive_fl ::
  "(real \<Rightarrow> real) \<Rightarrow> (account \<Rightarrow> real) \<Rightarrow> account list \<Rightarrow> (string, real) js_map \<times> real" where
  "collect_positive_fl r amount accounts =
     foldl (\<lambda>acc a. if amount a > 0
                     then (map_set (id_acc a) (amount a) (fst acc), r (snd acc + amount a))
                     else acc)
       ([], 0) accounts"

definition shortfall_fl :: "(real \<Rightarrow> real) \<Rightarrow> account \<Rightarrow> real" where
  "shortfall_fl r a = max 0 (r (minThreshold a - balance a))"

definition capacity_fl :: "(real \<Rightarrow> real) \<Rightarrow> account \<Rightarrow> real" where
  "capacity_fl r a = max 0 (r (maxThreshold a - balance a))"

definition overflow_fl :: "(real \<Rightarrow> real) \<Rightarrow> account \<Rightarrow> real" where
  "overflow_fl r a = max 0 (r (balance a - maxThreshold a))"

definition fill_minimums_fl :: "(real \<Rightarrow> real) \<Rightarrow> account list \<Rightarrow> account list" where
  "fill_minimums_fl r accounts =
     (let minShortfalls = fst (collect_positive_fl r (shortfall_fl r) accounts)
      in map (\<lambda>a. let shortfall = or0 (map_get minShortfalls (id_acc a))
                   in if shortfall > 0 then a\<lparr>balance := minThreshold a\<rparr> else a)
           accounts)"

definition distributeInitial_fl :: "(real \<Rightarrow> real) \<Rightarrow> account list \<Rightarrow> real \<Rightarrow> account list" where
  "distributeInitial_fl r accounts funding =
     (let minShortfalls = fst (collect_positive_fl r (shortfall_fl r) accounts);
          totalMinRequired = snd (collect_positive_fl r (shortfall_fl r) accounts)
      in
        if funding < totalMinRequired then
          map (\<lambda>a. let shortfall = or0 (map_get minShortfalls (id_acc a))
                    in if shortfall > 0
                       then a\<lparr>balance :=
                              r (balance a + r (r (shortfall / totalMinRequired) * funding))\<rparr>
                       else a) accounts
        else
          let filled = fill_minimums_fl r accounts;
              remaining = r (funding - totalMinRequired)
          in
            if remaining \<le> 0 then filled
            else
              let capacities = fst (collect_positive_fl r (capacity_fl r) filled);
                  totalCapacity = snd (collect_positive_fl r (capacity_fl r) filled)
              in
                if totalCapacity = 0 then filled
                else
                  map (\<lambda>a. let capacity = or0 (map_get capacities (id_acc a))
                            in if capacity > 0
                               then a\<lparr>balance :=
                                      r (balance a + r (r (capacity / totalCapacity) * remaining))\<rparr>
                               else a) filled)"

definition clamp_fl :: "(real \<Rightarrow> real) \<Rightarrow> account \<Rightarrow> account" where
  "clamp_fl r a = (if overflow_fl r a > 0 then a\<lparr>balance := maxThreshold a\<rparr> else a)"

definition calculateOverflow_fl ::
  "(real \<Rightarrow> real) \<Rightarrow> account list \<Rightarrow> account list \<times> (string, real) js_map" where
  "calculateOverflow_fl r accounts =
     (map (clamp_fl r) accounts, fst (collect_positive_fl r (overflow_fl r) accounts))"

fun add_balance_fl :: "(real \<Rightarrow> real) \<Rightarrow> string \<Rightarrow> real \<Rightarrow> account list \<Rightarrow> account list" where
  "add_balance_fl r k amount [] = []"
| "add_balance_fl r k amount (a # as) =
     (if k \<in> set (map id_acc as) then a # add_balance_fl r k amount as
      else if id_acc a = k then a\<lparr>balance := r (balance a + amount)\<rparr> # as
      else a # as)"

definition transfer_fl ::
  "(real \<Rightarrow> real) \<Rightarrow> string \<Rightarrow> real \<Rightarrow> real \<Rightarrow> account list \<times> (string, real) js_map
   \<Rightarrow> string \<times> real \<Rightarrow> account list \<times> (string, real) js_map" where
  "transfer_fl r sourceId ov totalWeight st e =
     (case accountMap_get (fst st) (fst e) of
        None \<Rightarrow> st
      | Some targetAccount \<Rightarrow>
          let normalizedPercentage = r (snd e / totalWeight);
              amount = r (ov * normalizedPercentage)
          in (add_balance_fl r (fst e) amount (fst st),
              map_set (flow_key sourceId (fst e)) amount (snd st)))"

definition redistribute_source_fl ::
  "(real \<Rightarrow> real) \<Rightarrow> account list \<times> (string, real) js_map \<Rightarrow> string \<times> real
   \<Rightarrow> account list \<times> (string, real) js_map" where
  "redistribute_source_fl r st so =
     (case accountMap_get (fst st) (fst so) of
        None \<Rightarrow> st
      | Some sourceAccount \<Rightarrow>
          if totalAllocation_fl r (allocations sourceAccount) = 0 then st
          else foldl (transfer_fl r (fst so) (snd so)
                        (totalAllocation_fl r (allocations sourceAccount)))
                 st (allocations sourceAccount))"

definition redistributeOverflow_fl ::
  "(real \<Rightarrow> real) \<Rightarrow> account list \<Rightarrow> (string, real) js_map
   \<Rightarrow> account list \<times> (string, real) js_map" where
  "redistributeOverflow_fl r accounts ovs = foldl (redistribute_source_fl r) (accounts, []) ovs"

fun overflow_rounds_fl ::
  "(real \<Rightarrow> real) \<Rightarrow> nat \<Rightarrow> nat \<Rightarrow> real \<Rightarrow> account list
   \<Rightarrow> account list \<times> IterationResult list \<times> bool" where
  "overflow_rounds_fl r 0 i eps accounts = (accounts, [], False)"
| "overflow_rounds_fl r (Suc n) i eps accounts =
     (let clamped = fst (calculateOverflow_fl r accounts);
          ovs = snd (calculateOverflow_fl r accounts);
          total_ov = foldl (\<lambda>s v. r (s + v)) 0 (map_values ovs);
          record_i = \<lparr>iteration = i, balances = snapshot clamped, overflows = ovs,
                      totalOverflow = total_ov, flows = [], converged_it = (total_ov < eps)\<rparr>
      in
        if total_ov < eps then (clamped, [record_i], True)
        else
          let redistributed = redistributeOverflow_fl r clamped ovs;
              rest = overflow_rounds_fl r n (Suc i) eps (fst redistributed)
          in (fst rest, record_i\<lparr>flows := snd redistributed\<rparr> # fst (snd rest), snd (snd rest)))"

definition runDistribution_fl ::
  "(real \<Rightarrow> real) \<Rightarrow> account list \<Rightarrow> real \<Rightarrow> DistributionConfig
   \<Rightarrow> account list \<times> (error + DistributionResult)" where
  "runDistribution_fl r accounts funding cfg =
     (let validation = validateNetwork_fl r accounts
      in
        if \<not> valid validation then (accounts, Inl (InvalidNetwork (errors validation)))
        else
          let initial = snapshot accounts;
              distributed = distributeInitial_fl r accounts funding;
              looped = overflow_rounds_fl r (maxIterations cfg) 0 (epsilon cfg) distributed
          in (fst looped,
              Inr \<lparr>initialBalances = initial,
                   finalBalances = snapshot (fst looped),
                   iterations = fst (snd looped),
                   converged = snd (snd looped),
                   totalFunding = funding,
                   iterationCount = length (fst (snd looped))\<rparr>))"

section \<open>The specification's wording and example networks\<close>

text \<open>
  The fatal conditions as the specification lists them for the validator: a negative threshold,
  \<open>min > max\<close>, a negative balance (or inflow), a self-allocation, an allocation to a target
  that is not in the network, an outgoing weight sum above 100 by more than 0.01.
\<close>

definition listed_fatal :: "string list \<Rightarrow> account \<Rightarrow> bool" where
  "listed_fatal ids a =
     (minThreshold a < 0 \<or> maxThreshold a < 0 \<or> minThreshold a > maxThreshold a \<or>
      balance a < 0 \<or>
      list_ex (\<lambda>e. fst e = id_acc a) (allocations a) \<or>
      list_ex (\<lambda>e. fst e \<notin> set ids) (allocations a) \<or>
      totalAllocation (allocations a) > 100 + 1 / 100)"

definition listed_fatal_v2 :: "string list \<Rightarrow> FlowNode \<Rightarrow> bool" where
  "listed_fatal_v2 ids n =
     (minThreshold_node n < 0 \<or> maxThreshold_node n < 0 \<or>
      minThreshold_node n > maxThreshold_node n \<or>
      externalInflow n < 0 \<or>
      list_ex (\<lambda>e. fst e = id_node n) (allocations_node n) \<or>
      list_ex (\<lambda>e. fst e \<notin> set ids) (allocations_node n) \<or>
      totalAllocation (allocations_node n) > 100 + 1 / 100)"

text \<open>The check the list leaves out: a single weight below 0 or above 100.\<close>

definition weight_out_of_range :: "(string, real) js_map \<Rightarrow> bool" where
  "weight_out_of_range al = list_ex (\<lambda>e. snd e < 0 \<or> snd e > 100) al"

text \<open>What one allocation entry must satisfy to push no error.\<close>

definition allocation_ok :: "string list \<Rightarrow> string \<Rightarrow> string \<times> real \<Rightarrow> bool" where
  "allocation_ok ids aid e = (0 \<le> snd e \<and> snd e \<le> 100 \<and> fst e \<in> set ids \<and> fst e \<noteq> aid)"

text \<open>
  The overflow sink as the specification words it: the sum, over all nodes, of
  \<open>outflow \<times> max(0, 100 - \<Sum> weights) / 100\<close>.
\<close>

definition sink_total :: "FlowNode list \<Rightarrow> real" where
  "sink_total ns =
     (\<Sum>n\<leftarrow>ns. or0 (totalOutflow n) * max 0 (100 - sum_list (map snd (allocations_node n))) / 100)"

definition status_example :: "real \<Rightarrow> real \<Rightarrow> real \<Rightarrow> FlowFundingAccount" where
  "status_example b lo hi =
     \<lparr>id_ffa = ''a'', name_ffa = ''A'', balance_ffa = b, minThreshold_ffa = lo,
      maxThreshold_ffa = hi, x_ffa = 0, y_ffa = 0, width_ffa = 0, height_ffa = 0,
      status = StatusHealthy, shortfall = 0, capacity = 0, overflow = 0\<rparr>"

definition zone_example :: FlowNode where
  "zone_example =
     \<lparr>id_node = ''n'', name_node = ''N'', externalInflow = 0, minThreshold_node = 100,
      maxThreshold_node = 200, allocations_node = [],
      totalInflow = None, totalOutflow = None, balance_node = None\<rparr>"

text \<open>Two accounts, the first with a weight of -5 towards the second.\<close>

definition invalid_weight_example :: "account list" where
  "invalid_weight_example =
     [\<lparr>id_acc = ''a'', name_acc = ''A'', balance = 0, minThreshold = 0, maxThreshold = 100,
       allocations = [(''b'', - 5)]\<rparr>,
      \<lparr>id_acc = ''b'', name_acc = ''B'', balance = 0, minThreshold = 0, maxThreshold = 100,
       allocations = []\<rparr>]"

definition small_config :: DistributionConfig where
  "small_config = \<lparr>maxIterations = 2, epsilon = 1 / 100, verbose = False\<rparr>"

text \<open>
  A source above its capacity threshold that allocates 50 of 100 to a second node, which ends in
  its building zone.
\<close>

definition sink_example :: "FlowNode list" where
  "sink_example =
     [\<lparr>id_node = ''a'', name_node = ''A'', externalInflow = 300, minThreshold_node = 50,
       maxThreshold_node = 100, allocations_node = [(''b'', 50)],
       totalInflow = None, totalOutflow = None, balance_node = None\<rparr>,
      \<lparr>id_node = ''b'', name_node = ''B'', externalInflow = 0, minThreshold_node = 100,
       maxThreshold_node = 1000, allocations_node = [],
       totalInflow = None, totalOutflow = None, balance_node = None\<rparr>]"

definition sink_example_final :: "FlowNode list" where
  "sink_example_final =
     [\<lparr>id_node = ''a'', name_node = ''A'', externalInflow = 300, minThreshold_node = 50,
       maxThreshold_node = 100, allocations_node = [(''b'', 50)],
       totalInflow = Some 300, totalOutflow = Some 200, balance_node = Some 0\<rparr>,
      \<lparr>id_node = ''b'', name_node = ''B'', externalInflow = 0, minThreshold_node = 100,
       maxThreshold_node = 1000, allocations_node = [],
       totalInflow = Some 200, totalOutflow = Some (250 / 7), balance_node = Some 0\<rparr>]"

definition sink_example_net :: FlowNetwork where
  "sink_example_net =
     \<lparr>nodes = map (\<lambda>n. (id_node n, n)) sink_example_final,
      edges = [\<lparr>source = ''a'', target = ''b'', flowRate = 200, percentage = 50\<rparr>],
      overflowNode = Some \<lparr>id_overflow = ''overflow'', totalInflow_overflow = 950 / 7\<rparr>,
      totalExternalInflow = 300, totalNetworkCapacity = 1100, totalNetworkNeeds = 150,
      converged_net = True, iterations_net = 2\<rparr>"

definition sink_config :: FlowConfig where
  "sink_config = \<lparr>maxIterations_v2 = 3, epsilon_v2 = 1 / 1000, verbose_v2 = False\<rparr>"

text \<open>One account that sits at its maximum, with nothing to fill and no capacity left.\<close>

definition full_example :: "account list" where
  "full_example =
     [\<lparr>id_acc = ''a'', name_acc = ''A'', balance = 100, minThreshold = 0, maxThreshold = 100,
       allocations = []\<rparr>]"

definition full_example_ffa :: FlowFundingNetwork where
  "full_example_ffa =
     \<lparr>name_net = ''full'',
      accounts_net = [status_example 100 0 100],
      allocations_net = [],
      totalFunds = 100, totalShortfall = 0, totalCapacity = 0, totalOverflow_net = 0\<rparr>"

text \<open>
  A list the validator rejects four times over: a self-allocation, a target that does not
  exist, a weight sum of 120 and a negative balance.
\<close>

definition rejected_example :: "account list" where
  "rejected_example =
     [\<lparr>id_acc = ''a'', name_acc = ''A'', balance = 150, minThreshold = 0, maxThreshold = 100,
       allocations = [(''a'', 60), (''ghost'', 60)]\<rparr>,
      \<lparr>id_acc = ''b'', name_acc = ''B'', balance = - 10, minThreshold = 0, maxThreshold = 50,
       allocations = []\<rparr>]"

text \<open>
  Quantities the conservation and decay properties speak of: the sum of the balances, the sum
  of the values of a map, and the overflow that the accounts hold above their maxima.
\<close>

definition total_balance :: "account list \<Rightarrow> real" where
  "total_balance accounts = sum_list (map balance accounts)"

definition map_total :: "(string, real) js_map \<Rightarrow> real" where
  "map_total m = sum_list (map snd m)"

definition pending_overflow :: "account list \<Rightarrow> real" where
  "pending_overflow accounts = sum_list (map overflow_of accounts)"

text \<open>
  Two states of the same accounts: the second differs from the first in the balances only,
  and no balance is lower.
\<close>

definition grown :: "account list \<Rightarrow> account list \<Rightarrow> bool" where
  "grown accounts accounts' =
     list_all2 (\<lambda>a b. b = a\<lparr>balance := balance b\<rparr> \<and> balance a \<le> balance b) accounts accounts'"

definition nonneg_weights :: "account list \<Rightarrow> bool" where
  "nonneg_weights accounts = list_all (\<lambda>a. list_all (\<lambda>e. 0 \<le> snd e) (allocations a)) accounts"

text \<open>
  A chain: \<open>a\<close> starts 100 above its maximum and passes half to \<open>b\<close> and half to \<open>c\<close>;
  \<open>b\<close> passes everything to \<open>c\<close>; \<open>c\<close> starts below its minimum.
\<close>

definition chain_example :: "account list" where
  "chain_example =
     [\<lparr>id_acc = ''a'', name_acc = ''A'', balance = 200, minThreshold = 0, maxThreshold = 100,
       allocations = [(''b'', 50), (''c'', 50)]\<rparr>,
      \<lparr>id_acc = ''b'', name_acc = ''B'', balance = 80, minThreshold = 0, maxThreshold = 100,
       allocations = [(''c'', 100)]\<rparr>,
      \<lparr>id_acc = ''c'', name_acc = ''C'', balance = 0, minThreshold = 20, maxThreshold = 1000,
       allocations = []\<rparr>]"

definition chain_config :: DistributionConfig where
  "chain_config = \<lparr>maxIterations = 3, epsilon = 1 / 100, verbose = False\<rparr>"

definition with_balances :: "account list \<Rightarrow> real list \<Rightarrow> account list" where
  "with_balances accounts bs = map (\<lambda>(a, b). a\<lparr>balance := b\<rparr>) (zip accounts bs)"

definition chain_result :: DistributionResult where
  "chain_result =
     \<lparr>initialBalances = [(''a'', 200), (''b'', 80), (''c'', 0)],
      finalBalances = [(''a'', 100), (''b'', 100), (''c'', 140)],
      iterations =
        [\<lparr>iteration = 0, balances = [(''a'', 100), (''b'', 404 / 5), (''c'', 296 / 5)],
          overflows = [(''a'', 100)], totalOverflow = 100,
          flows = [(''a->b'', 50), (''a->c'', 50)], converged_it = False\<rparr>,
         \<lparr>iteration = 1, balances = [(''a'', 100), (''b'', 100), (''c'', 546 / 5)],
          overflows = [(''b'', 154 / 5)], totalOverflow = 154 / 5,
          flows = [(''b->c'', 154 / 5)], converged_it = False\<rparr>,
         \<lparr>iteration = 2, balances = [(''a'', 100), (''b'', 100), (''c'', 140)],
          overflows = [], totalOverflow = 0, flows = [], converged_it = True\<rparr>],
      converged = True, totalFunding = 60, iterationCount = 3\<rparr>"

text \<open>Every allocation of every account names an account of the list.\<close>

definition targets_exist :: "account list \<Rightarrow> bool" where
  "targets_exist accounts =
     list_all (\<lambda>a. list_all (\<lambda>e. fst e \<in> set (map id_acc accounts)) (allocations a)) accounts"

text \<open>
  The hypothesis of the conservation property: every account that has overflow in some recorded
  round has outgoing weights that sum to at least 100.
\<close>

definition overflow_fully_allocated :: "account list \<Rightarrow> IterationResult list \<Rightarrow> bool" where
  "overflow_fully_allocated accounts its =
     list_all (\<lambda>r. list_all (\<lambda>a. id_acc a \<in> set (map fst (overflows r))
                                 \<longrightarrow> 100 \<le> totalAllocation (allocations a)) accounts) its"

text \<open>
  Phase A hands out all of the funding: nothing is left once the minimums are filled, or some
  account has capacity left at that point.
\<close>

definition phase_A_keeps :: "account list \<Rightarrow> real \<Rightarrow> bool" where
  "phase_A_keeps accounts funding =
     (funding \<le> snd (collect_positive shortfall_of accounts) \<or>
      snd (collect_positive capacity_of (fill_minimums accounts)) \<noteq> 0)"

text \<open>The entry of \<^verbatim>\<open>overflows\<close> has a source account whose weights do not sum to 0.\<close>

definition source_allocates :: "account list \<Rightarrow> string \<times> real \<Rightarrow> bool" where
  "source_allocates accounts so =
     (case accountMap_get accounts (fst so) of
        None \<Rightarrow> False
      | Some src \<Rightarrow> totalAllocation (allocations src) \<noteq> 0)"

definition full_result :: DistributionResult where
  "full_result =
     \<lparr>initialBalances = [(''a'', 100)],
      finalBalances = [(''a'', 100)],
      iterations =
        [\<lparr>iteration = 0, balances = [(''a'', 100)], overflows = [],
          totalOverflow = 0, flows = [], converged_it = True\<rparr>],
      converged = True, totalFunding = 50, iterationCount = 1\<rparr>"

text \<open>Every outgoing weight multiplied by the constant \<open>c\<close>, for a map, an account and a node.\<close>

definition scale_allocations :: "real \<Rightarrow> (string, real) js_map \<Rightarrow> (string, real) js_map" where
  "scale_allocations c al = map (\<lambda>e. (fst e, snd e * c)) al"

definition scale_account :: "real \<Rightarrow> account \<Rightarrow> account" where
  "scale_account c a = a\<lparr>allocations := scale_allocations c (allocations a)\<rparr>"

definition scale_weights :: "real \<Rightarrow> account list \<Rightarrow> account list" where
  "scale_weights c accounts = map (scale_account c) accounts"





text \<open>
  What \<^verbatim>\<open>runTargetedDistribution\<close> may do to the caller's accounts: write balances, and nothing
  else. Three more configurations for it: one round, three rounds with a wide epsilon, and one
  round with an epsilon above the overflow of the example.
\<close>

definition rebalanced :: "account list \<Rightarrow> account list \<Rightarrow> bool" where
  "rebalanced accounts accounts' =
     list_all2 (\<lambda>a b. b = a\<lparr>balance := balance b\<rparr>) accounts accounts'"

definition single_round_config :: DistributionConfig where
  "single_round_config = \<lparr>maxIterations = 1, epsilon = 1 / 100, verbose = False\<rparr>"

definition loose_config :: DistributionConfig where
  "loose_config = \<lparr>maxIterations = 3, epsilon = 20, verbose = False\<rparr>"

definition slack_config :: DistributionConfig where
  "slack_config = \<lparr>maxIterations = 1, epsilon = 60, verbose = False\<rparr>"

text \<open>
  A valid network for the rounding of the doubles: \<open>a\<close> starts 70 above its maximum and passes
  two thirds to \<open>t0\<close> and one third to \<open>t1\<close>, which both start at their maximum and return
  everything to \<open>a\<close>.
\<close>

definition rounding_example :: "account list" where
  "rounding_example =
     [\<lparr>id_acc = ''a'', name_acc = ''A'', balance = 170, minThreshold = 50, maxThreshold = 100,
       allocations = [(''t0'', 50), (''t1'', 25)]\<rparr>,
      \<lparr>id_acc = ''t0'', name_acc = ''T0'', balance = 50, minThreshold = 0, maxThreshold = 50,
       allocations = [(''a'', 100)]\<rparr>,
      \<lparr>id_acc = ''t1'', name_acc = ''T1'', balance = 4, minThreshold = 0, maxThreshold = 4,
       allocations = [(''a'', 100)]\<rparr>]"



section \<open>Sums\<close>

lemma foldl_add_sum_list:
  "foldl (\<lambda>s x. s + f x) (a::real) xs = a + sum_list (map f xs)"
  by (induction xs arbitrary: a) simp_all

lemma totalAllocation_sum_list: "totalAllocation al = sum_list (map snd al)"
  by (simp add: totalAllocation_def foldl_add_sum_list)

lemma collect_positive_total_aux:
  "snd (foldl (\<lambda>acc a. if amount a > 0
                     then (map_set (id_acc a) (amount a) (fst acc), snd acc + amount a)
                     else acc) (m, t::real) accounts)
   = t + (\<Sum>a\<leftarrow>accounts. max 0 (amount a))"
  by (induction accounts arbitrary: m t) (auto simp add: max_def)

lemma collect_positive_total:
  "snd (collect_positive amount accounts) = (\<Sum>a\<leftarrow>accounts. max 0 (amount a))"
  by (simp add: collect_positive_def collect_positive_total_aux)

lemma clamp_min: "clamp a = a\<lparr>balance := min (balance a) (maxThreshold a)\<rparr>"
  by (simp add: clamp_def overflow_of_def min_def)

section \<open>Double arithmetic\<close>

lemma halvings_numeral:
  "halvings (numeral k) x = (if x < 2 then 0 else 1 + halvings (pred_numeral k) (x / 2))"
  by (simp add: numeral_eq_Suc)

lemma doublings_numeral:
  "doublings (numeral k) x = (if 1 \<le> x then 0 else doublings (pred_numeral k) (2 * x) - 1)"
  by (simp add: numeral_eq_Suc)

text \<open>The definitions that a run of the rounded engine on a concrete network unfolds.\<close>

lemmas round64_eval = round64_def exponent_def halvings_numeral doublings_numeral pow2_def
  round_half_even_def

lemmas engine_fl_eval = runDistribution_fl_def validateNetwork_fl_def account_errors_fl_def
  allocation_errors_def totalAllocation_fl_def distributeInitial_fl_def fill_minimums_fl_def
  collect_positive_fl_def shortfall_fl_def capacity_fl_def overflow_fl_def clamp_fl_def
  calculateOverflow_fl_def transfer_fl_def redistribute_source_fl_def
  redistributeOverflow_fl_def map_values_def snapshot_def new_Map_def flow_key_def or0_def
  map_get_def Let_def

text \<open>
  The roundings that occur in the runs of the example networks below, each computed from the
  definition of \<open>round64\<close>.
\<close>

lemma round64_values:
  "round64 0 = 0"
  "round64 (10001 / 100) = 7037578105208177 / 70368744177664"
  "round64 50 = 50"
  "round64 75 = 75"
  "round64 100 = 100"
  "round64 (- 120) = - 120"
  "round64 (- 50) = - 50"
  "round64 (- 4) = - 4"
  "round64 70 = 70"
  "round64 (2 / 3) = 6004799503160661 / 9007199254740992"
  "round64 (210167982610623135 / 4503599627370496) = 6567749456581973 / 140737488355328"
  "round64 (13604623874348373 / 140737488355328) = 3401155968587093 / 35184372088832"
  "round64 (1 / 3) = 6004799503160661 / 18014398509481984"
  "round64 (210167982610623135 / 9007199254740992) = 6567749456581973 / 281474976710656"
  "round64 (7693649363424597 / 281474976710656) = 7693649363424597 / 281474976710656"
  "round64 (1641937364145493 / 35184372088832) = 1641937364145493 / 35184372088832"
  "round64 (6567749456581973 / 281474976710656) = 6567749456581973 / 281474976710656"
  "round64 (19703248369745917 / 281474976710656) = 4925812092436479 / 70368744177664"
  "round64 1 = 1"
  "round64 (5160374573028693 / 35184372088832) = 5160374573028693 / 35184372088832"
  "round64 (47850746040811517 / 281474976710656) = 170"
  "round64 (3 / 10) = 5404319552844595 / 18014398509481984"
  "round64 3 = 3"
  "round64 (- 200) = - 200"
  "round64 (- 1000) = - 1000"
  "round64 (150119987579016525 / 4503599627370496) = 2345624805922133 / 70368744177664"
  "round64 (2345624805922133 / 70368744177664) = 2345624805922133 / 70368744177664"
  "round64 (150119987579016525 / 2251799813685248) = 2345624805922133 / 35184372088832"
  "round64 (2345624805922133 / 35184372088832) = 2345624805922133 / 35184372088832"
  "round64 (- (68023119371741867 / 70368744177664)) = - (8502889921467733 / 8796093022208)"
  "round64 (- (32838747282909867 / 35184372088832)) = - (8209686820727467 / 8796093022208)"
  "round64 (5404319552844595 / 18014398509481984) = 5404319552844595 / 18014398509481984"
  "round64 (5404319552844595 / 9007199254740992) = 5404319552844595 / 9007199254740992"
  "round64 (16212958658533785 / 18014398509481984) = 2026619832316723 / 2251799813685248"
  "round64 (5404319552844595 / 16212958658533784) = 3002399751580331 / 9007199254740992"
  "round64 (75059993789508275 / 2251799813685248) = 4691249611844267 / 140737488355328"
  "round64 (4691249611844267 / 140737488355328) = 4691249611844267 / 140737488355328"
  "round64 (5404319552844595 / 8106479329266892) = 3002399751580331 / 4503599627370496"
  "round64 (75059993789508275 / 1125899906842624) = 4691249611844267 / 70368744177664"
  "round64 (4691249611844267 / 70368744177664) = 4691249611844267 / 70368744177664"
  "round64 (- (136046238743483733 / 140737488355328)) = - (8502889921467733 / 8796093022208)"
  "round64 (- (65677494565819733 / 70368744177664)) = - (8209686820727467 / 8796093022208)"
  "round64 (- 100) = - 100"
  by (simp_all add: round64_eval)

text \<open>
  Known doubles, as a check of \<open>round64\<close>: 0.1; the sum of the doubles 0.1 and 0.2, which is
  0.30000000000000004; the ties \<open>2 ^ 53 + 1\<close> and \<open>2 ^ 53 + 3\<close>, which go to the even
  significand; and a tie between two subnormal values.
\<close>

lemma round64_known_values:
  "round64 (1 / 10) = 3602879701896397 / 36028797018963968"
  "round64 (3602879701896397 / 36028797018963968 + 3602879701896397 / 18014398509481984)
     = 1351079888211149 / 4503599627370496"
  "round64 9007199254740993 = 9007199254740992"
  "round64 9007199254740995 = 9007199254740996"
  "round64 (3 / 2 ^ 1075) = 1 / 2 ^ 1073"
  by (simp_all add: round64_eval)

text \<open>With the identity for the rounding, the rounded engine is the exact one.\<close>

lemma totalAllocation_fl_exact: "totalAllocation_fl (\<lambda>x. x) = totalAllocation"
  by (simp add: fun_eq_iff totalAllocation_fl_def totalAllocation_def)

lemma validateNetwork_fl_exact: "validateNetwork_fl (\<lambda>x. x) = validateNetwork"
proof -
  have e: "account_errors_fl (\<lambda>x. x) = account_errors"
    by (simp add: fun_eq_iff account_errors_fl_def account_errors_def totalAllocation_fl_exact)
  show ?thesis
    by (rule ext) (simp add: validateNetwork_fl_def validateNetwork_def e)
qed

lemma amounts_fl_exact:
  "shortfall_fl (\<lambda>x. x) = shortfall_of"
  "capacity_fl (\<lambda>x. x) = capacity_of"
  "overflow_fl (\<lambda>x. x) = overflow_of"
  by (simp_all add: fun_eq_iff shortfall_fl_def shortfall_of_def capacity_fl_def capacity_of_def
      overflow_fl_def overflow_of_def)

lemma collect_positive_fl_exact: "collect_positive_fl (\<lambda>x. x) = collect_positive"
  by (simp add: fun_eq_iff collect_positive_fl_def collect_positive_def)

lemma fill_minimums_fl_exact: "fill_minimums_fl (\<lambda>x. x) = fill_minimums"
  by (simp add: fun_eq_iff fill_minimums_fl_def fill_minimums_def collect_positive_fl_exact
      amounts_fl_exact)

lemma distributeInitial_fl_exact: "distributeInitial_fl (\<lambda>x. x) = distributeInitial"
  by (simp add: fun_eq_iff distributeInitial_fl_def distributeInitial_def fill_minimums_fl_exact
      collect_positive_fl_exact amounts_fl_exact Let_def)

lemma calculateOverflow_fl_exact: "calculateOverflow_fl (\<lambda>x. x) = calculateOverflow"
  by (simp add: fun_eq_iff calculateOverflow_fl_def calculateOverflow_def clamp_fl_def
      clamp_def collect_positive_fl_exact amounts_fl_exact)

lemma add_balance_fl_exact: "add_balance_fl (\<lambda>x. x) k amount accounts = add_balance k amount accounts"
  by (induction accounts) simp_all

lemma redistributeOverflow_fl_exact: "redistributeOverflow_fl (\<lambda>x. x) = redistributeOverflow"
proof -
  have t: "transfer_fl (\<lambda>x. x) = transfer"
    by (simp add: fun_eq_iff transfer_fl_def transfer_def add_balance_fl_exact Let_def
        split: option.splits)
  have s: "redistribute_source_fl (\<lambda>x. x) = redistribute_source"
    by (simp add: fun_eq_iff redistribute_source_fl_def redistribute_source_def
        totalAllocation_fl_exact t split: option.splits)
  show ?thesis
    by (simp add: fun_eq_iff redistributeOverflow_fl_def redistributeOverflow_def s)
qed

lemma overflow_rounds_fl_exact:
  "overflow_rounds_fl (\<lambda>x. x) n i eps accounts = overflow_rounds n i eps accounts"
  by (induction n arbitrary: i accounts)
    (simp_all add: calculateOverflow_fl_exact redistributeOverflow_fl_exact Let_def)

lemma runDistribution_fl_exact: "runDistribution_fl (\<lambda>x. x) = runDistribution"
  by (simp add: fun_eq_iff runDistribution_fl_def runDistribution_def validateNetwork_fl_exact
      distributeInitial_fl_exact overflow_rounds_fl_exact Let_def)


section \<open>The validators\<close>

lemma allocation_errors_Nil: "allocation_errors ids aid e = [] \<longleftrightarrow> allocation_ok ids aid e"
  by (auto simp add: allocation_errors_def allocation_ok_def)

lemma account_errors_Nil:
  "account_errors ids a = [] \<longleftrightarrow>
     0 \<le> minThreshold a \<and> 0 \<le> maxThreshold a \<and> minThreshold a \<le> maxThreshold a \<and>
     0 \<le> balance a \<and> list_all (allocation_ok ids (id_acc a)) (allocations a) \<and>
     totalAllocation (allocations a) \<le> 10001 / 100"
  by (auto simp add: account_errors_def allocation_errors_Nil list_all_iff)

lemma node_errors_Nil:
  "node_errors ids n = [] \<longleftrightarrow>
     0 \<le> minThreshold_node n \<and> 0 \<le> maxThreshold_node n \<and>
     minThreshold_node n \<le> maxThreshold_node n \<and>
     0 \<le> externalInflow n \<and> list_all (allocation_ok ids (id_node n)) (allocations_node n) \<and>
     totalAllocation (allocations_node n) \<le> 10001 / 100"
  by (auto simp add: node_errors_def allocation_errors_Nil list_all_iff)

lemma valid_validateNetwork:
  "valid (validateNetwork accounts) \<longleftrightarrow>
     accounts \<noteq> [] \<and> list_all (\<lambda>a. account_errors (map id_acc accounts) a = []) accounts"
  by (auto simp add: validateNetwork_def Let_def list_all_iff)

lemma valid_validateNetwork_v2:
  "valid (validateNetwork_v2 ns) \<longleftrightarrow>
     ns \<noteq> [] \<and> list_all (\<lambda>n. node_errors (map id_node ns) n = []) ns"
  by (auto simp add: validateNetwork_v2_def Let_def list_all_iff)

lemma invalid_has_errors:
  "\<not> valid (validateNetwork accounts) \<Longrightarrow> errors (validateNetwork accounts) \<noteq> []"
  by (auto simp add: validateNetwork_def Let_def)

lemma invalid_has_errors_v2:
  "\<not> valid (validateNetwork_v2 ns) \<Longrightarrow> errors (validateNetwork_v2 ns) \<noteq> []"
  by (auto simp add: validateNetwork_v2_def Let_def)

text \<open>
  C4, as stated: the validator returns \<open>valid = false\<close> exactly when some account meets one of
  the listed fatal conditions. The empty network is invalid and has no account at all; a network
  whose only defect is a weight of -5 is invalid too.
\<close>

theorem validator_listed_conditions_counterexample:
  "valid (validateNetwork []) = False \<and>
   list_ex (listed_fatal (map id_acc [])) [] = False \<and>
   valid (validateNetwork invalid_weight_example) = False \<and>
   list_ex (listed_fatal (map id_acc invalid_weight_example)) invalid_weight_example = False \<and>
   valid (validateNetwork_v2 []) = False \<and>
   list_ex (listed_fatal_v2 (map id_node [])) [] = False"
  by (simp add: validateNetwork_def validateNetwork_v2_def invalid_weight_example_def
      account_errors_def allocation_errors_def listed_fatal_def totalAllocation_def)

text \<open>
  C4, amended: both validators are total functions, and each returns \<open>valid = false\<close> exactly
  when the network is empty, or some account meets one of the listed fatal conditions or has a
  single allocation weight below 0 or above 100.
\<close>

theorem validator_invalid_iff:
  "(valid (validateNetwork accounts) = False \<longleftrightarrow>
      accounts = [] \<or>
      list_ex (\<lambda>a. listed_fatal (map id_acc accounts) a \<or> weight_out_of_range (allocations a))
        accounts) \<and>
   (valid (validateNetwork_v2 ns) = False \<longleftrightarrow>
      ns = [] \<or>
      list_ex (\<lambda>n. listed_fatal_v2 (map id_node ns) n \<or> weight_out_of_range (allocations_node n))
        ns)"
proof -
  have a: "account_errors ids a \<noteq> [] \<longleftrightarrow>
             listed_fatal ids a \<or> weight_out_of_range (allocations a)" for ids a
    unfolding account_errors_Nil listed_fatal_def weight_out_of_range_def allocation_ok_def
      list_all_iff list_ex_iff
    by (auto simp add: not_le not_less)
  have n: "node_errors ids m \<noteq> [] \<longleftrightarrow>
             listed_fatal_v2 ids m \<or> weight_out_of_range (allocations_node m)" for ids m
    unfolding node_errors_Nil listed_fatal_v2_def weight_out_of_range_def allocation_ok_def
      list_all_iff list_ex_iff
    by (auto simp add: not_le not_less)
  show ?thesis
    unfolding valid_validateNetwork valid_validateNetwork_v2 list_all_iff list_ex_iff
    using a n by blast
qed

theorem validator_invalid_iff_witness:
  "valid (validateNetwork invalid_weight_example) = False \<and>
   weight_out_of_range (allocations (hd invalid_weight_example)) \<and>
   valid (validateNetwork_v2 sink_example) = True"
  using validator_invalid_iff [of invalid_weight_example sink_example]
  by (simp add: invalid_weight_example_def weight_out_of_range_def listed_fatal_def
      listed_fatal_v2_def sink_example_def totalAllocation_def)

lemma full_example_valid: "valid (validateNetwork full_example)"
  by (simp add: validateNetwork_def full_example_def account_errors_def totalAllocation_def)

lemma sink_example_valid: "valid (validateNetwork_v2 sink_example)"
  by (simp add: validateNetwork_v2_def sink_example_def node_errors_def allocation_errors_def
      totalAllocation_def)

lemma invalid_weight_example_errors:
  "valid (validateNetwork invalid_weight_example) = False \<and>
   errors (validateNetwork invalid_weight_example) = [AllocationOutOfRange ''a'' ''b'']"
  by (simp add: validateNetwork_def invalid_weight_example_def account_errors_def
      allocation_errors_def totalAllocation_def)

lemma empty_network_errors:
  "valid (validateNetwork_v2 []) = False \<and> errors (validateNetwork_v2 []) = [EmptyNetwork]"
  by (simp add: validateNetwork_v2_def)

section \<open>Failing fast\<close>

text \<open>
  C3: on an input that \<open>validateNetwork\<close> rejects, \<open>runDistribution\<close> and
  \<open>calculateSteadyState\<close> fail with the validator's error list, which is not empty, and the
  accounts or nodes are as the caller passed them; on an input it accepts they return a result.
\<close>

theorem engines_fail_fast:
  "(\<not> valid (validateNetwork accounts) \<longrightarrow>
      runDistribution accounts funding cfg
        = (accounts, Inl (InvalidNetwork (errors (validateNetwork accounts)))) \<and>
      errors (validateNetwork accounts) \<noteq> []) \<and>
   (valid (validateNetwork accounts) \<longrightarrow>
      (\<exists>r. snd (runDistribution accounts funding cfg) = Inr r)) \<and>
   (\<not> valid (validateNetwork_v2 ns) \<longrightarrow>
      calculateSteadyState ns cfg2
        = (ns, Inl (InvalidNetwork (errors (validateNetwork_v2 ns)))) \<and>
      errors (validateNetwork_v2 ns) \<noteq> []) \<and>
   (valid (validateNetwork_v2 ns) \<longrightarrow>
      (\<exists>r. snd (calculateSteadyState ns cfg2) = Inr r))"
  by (simp add: runDistribution_def calculateSteadyState_def Let_def invalid_has_errors
      invalid_has_errors_v2)

theorem engines_fail_fast_witness:
  "runDistribution invalid_weight_example 10 small_config
     = (invalid_weight_example, Inl (InvalidNetwork [AllocationOutOfRange ''a'' ''b''])) \<and>
   (\<exists>r. snd (runDistribution full_example 50 small_config) = Inr r) \<and>
   calculateSteadyState [] sink_config = ([], Inl (InvalidNetwork [EmptyNetwork])) \<and>
   (\<exists>r. snd (calculateSteadyState sink_example sink_config) = Inr r)"
  using engines_fail_fast [of invalid_weight_example 10 small_config "[]" sink_config]
    engines_fail_fast [of full_example 50 small_config sink_example sink_config]
    full_example_valid sink_example_valid invalid_weight_example_errors empty_network_errors
  by simp

section \<open>Zones and status\<close>

text \<open>
  C5: for a node with \<open>0 \<le> minThreshold \<le> maxThreshold\<close>, \<open>calculateOutflow\<close> is 0 at
  \<open>totalInflow = minThreshold\<close>, and at \<open>totalInflow = 1.5 \<times> maxThreshold\<close> it is
  \<open>capacityThreshold - maxThreshold\<close>, which is \<open>0.5 \<times> maxThreshold\<close>.
\<close>

theorem calculateOutflow_zone_continuity:
  assumes "0 \<le> minThreshold_node n" and "minThreshold_node n \<le> maxThreshold_node n"
  shows "calculateOutflow (n\<lparr>totalInflow := Some (minThreshold_node n)\<rparr>) = 0 \<and>
         calculateOutflow (n\<lparr>totalInflow := Some ((3 / 2) * maxThreshold_node n)\<rparr>)
           = (3 / 2) * maxThreshold_node n - maxThreshold_node n \<and>
         calculateOutflow (n\<lparr>totalInflow := Some ((3 / 2) * maxThreshold_node n)\<rparr>)
           = (1 / 2) * maxThreshold_node n"
  using assms by (auto simp add: calculateOutflow_def or0_def Let_def)

theorem calculateOutflow_zone_continuity_witness:
  "calculateOutflow (zone_example\<lparr>totalInflow := Some 100\<rparr>) = 0 \<and>
   calculateOutflow (zone_example\<lparr>totalInflow := Some 300\<rparr>) = 100"
  using calculateOutflow_zone_continuity [of zone_example]
  by (simp add: zone_example_def)

text \<open>
  C8: \<open>getAccountStatus\<close> is \<open>deficit\<close> below the minimum; otherwise \<open>overflow\<close> at or above the
  maximum, whether or not the balance is within 0.01 of the minimum; otherwise \<open>minimum\<close> within
  0.01 of the minimum; otherwise \<open>healthy\<close>.
\<close>

theorem getAccountStatus_priority:
  "(balance_ffa a < minThreshold_ffa a \<longrightarrow> getAccountStatus a = StatusDeficit) \<and>
   (minThreshold_ffa a \<le> balance_ffa a \<and> maxThreshold_ffa a \<le> balance_ffa a
      \<longrightarrow> getAccountStatus a = StatusOverflow) \<and>
   (minThreshold_ffa a \<le> balance_ffa a \<and> balance_ffa a < maxThreshold_ffa a \<and>
    \<bar>balance_ffa a - minThreshold_ffa a\<bar> < 1 / 100
      \<longrightarrow> getAccountStatus a = StatusMinimum) \<and>
   (minThreshold_ffa a \<le> balance_ffa a \<and> balance_ffa a < maxThreshold_ffa a \<and>
    \<not> \<bar>balance_ffa a - minThreshold_ffa a\<bar> < 1 / 100
      \<longrightarrow> getAccountStatus a = StatusHealthy)"
  by (simp add: getAccountStatus_def)

theorem getAccountStatus_priority_witness:
  "getAccountStatus (status_example 50 100 200) = StatusDeficit \<and>
   getAccountStatus (status_example 100 100 100) = StatusOverflow \<and>
   getAccountStatus (status_example 100 100 200) = StatusMinimum \<and>
   getAccountStatus (status_example 150 100 200) = StatusHealthy"
  using getAccountStatus_priority [of "status_example 50 100 200"]
    getAccountStatus_priority [of "status_example 100 100 100"]
    getAccountStatus_priority [of "status_example 100 100 200"]
    getAccountStatus_priority [of "status_example 150 100 200"]
  by (simp add: status_example_def)

section \<open>The overflow sink\<close>

lemma sink_example_rounds:
  "steady_rounds 3 0 (1 / 1000)
     (map (\<lambda>n. n\<lparr>totalInflow := Some (externalInflow n), totalOutflow := Some 0,
                  balance_node := Some 0\<rparr>) sink_example)
   = (sink_example_final, True, 2)"
  by (simp add: eval_nat_numeral sink_example_def sink_example_final_def flow_round_def
      calculateOutflow_def or0_def Let_def add_flows_def totalAllocation_def map_get_def)

lemma sink_example_edges:
  "concat (map edges_of sink_example_final)
     = [\<lparr>source = ''a'', target = ''b'', flowRate = 200, percentage = 50\<rparr>]"
  by (simp add: sink_example_final_def edges_of_def or0_def totalAllocation_def)

lemma sink_example_unallocated:
  "foldl (\<lambda>s n. s + unallocated n) 0 sink_example_final = 950 / 7"
  by (simp add: sink_example_final_def unallocated_def or0_def totalAllocation_def)

lemma sink_example_totals:
  "foldl (\<lambda>s n. s + externalInflow n) 0 sink_example_final = 300"
  "foldl (\<lambda>s n. s + maxThreshold_node n) 0 sink_example_final = 1100"
  "foldl (\<lambda>s n. s + minThreshold_node n) 0 sink_example_final = 150"
  "new_Map (map (\<lambda>n. (id_node n, n)) sink_example_final)
     = map (\<lambda>n. (id_node n, n)) sink_example_final"
  by (simp_all add: sink_example_final_def new_Map_def)

lemma sink_example_run:
  "calculateSteadyState sink_example sink_config = (sink_example_final, Inr sink_example_net)"
  by (simp add: calculateSteadyState_def sink_example_valid Let_def sink_config_def
      sink_example_rounds sink_example_edges sink_example_unallocated sink_example_totals
      sink_example_net_def)

lemma sink_example_total: "sink_total sink_example_final = 950 / 7"
  by (simp add: sink_total_def sink_example_final_def or0_def)

text \<open>
  C9: the result of \<open>calculateSteadyState\<close> has an overflow node exactly when the sum over the
  nodes, as the loop left them, of \<open>outflow \<times> max(0, 100 - \<Sum> weights) / 100\<close> exceeds epsilon;
  its \<open>totalInflow\<close> is then that sum, and otherwise \<open>overflowNode\<close> is null.
\<close>

theorem overflow_sink:
  assumes "calculateSteadyState ns cfg = (final, Inr net)"
  shows "overflowNode net =
           (if sink_total final > epsilon_v2 cfg
            then Some \<lparr>id_overflow = ''overflow'', totalInflow_overflow = sink_total final\<rparr>
            else None)"
proof -
  have s: "foldl (\<lambda>s n. s + unallocated n) 0 xs = sink_total xs" for xs
    by (simp add: foldl_add_sum_list sink_total_def unallocated_def totalAllocation_sum_list)
  from assms show ?thesis
    by (auto simp add: calculateSteadyState_def Let_def s split: if_splits)
qed

theorem overflow_sink_witness:
  "calculateSteadyState sink_example sink_config = (sink_example_final, Inr sink_example_net) \<and>
   sink_total sink_example_final = 950 / 7 \<and>
   overflowNode sink_example_net
     = Some \<lparr>id_overflow = ''overflow'', totalInflow_overflow = 950 / 7\<rparr>"
  using overflow_sink [OF sink_example_run] sink_example_run sink_example_total
  by (simp add: sink_config_def)

section \<open>Targeted distribution\<close>

lemma targeted_rounds_first:
  "\<exists>r rest. fst (snd (targeted_rounds (Suc n) i eps accounts)) = r # rest \<and>
     balances r = snapshot (map clamp accounts) \<and>
     totalOverflow r = snd (collect_positive overflow_of accounts)"
  by (simp add: Let_def)

text \<open>
  Clamping and redistribution write balances only, whatever the accounts are: no step needs the
  network to be valid.
\<close>

lemma rebalanced_refl: "rebalanced xs xs"
  by (simp add: rebalanced_def list_all2_same)

lemma rebalanced_trans: "rebalanced xs ys \<Longrightarrow> rebalanced ys zs \<Longrightarrow> rebalanced xs zs"
  unfolding rebalanced_def
proof (erule list_all2_trans [rotated], assumption)
  fix a b c :: account
  assume "b = a\<lparr>balance := balance b\<rparr>" and "c = b\<lparr>balance := balance c\<rparr>"
  then have "c = a\<lparr>balance := balance b\<rparr>\<lparr>balance := balance c\<rparr>"
    by simp
  then show "c = a\<lparr>balance := balance c\<rparr>"
    by simp
qed

lemma clamp_rebalanced: "rebalanced xs (map clamp xs)"
  by (simp add: rebalanced_def list_all2_map2 list_all2_same clamp_def)

lemma add_balance_rebalanced: "rebalanced xs (add_balance k amount xs)"
  by (induction xs) (auto simp add: rebalanced_def list_all2_same)

lemma transfer_rebalanced: "rebalanced (fst st) (fst (transfer s ov w st e))"
  by (simp add: transfer_def Let_def rebalanced_refl add_balance_rebalanced split: option.splits)

lemma fold_transfer_rebalanced: "rebalanced (fst st) (fst (foldl (transfer s ov w) st es))"
proof (induction es arbitrary: st)
  case Nil
  then show ?case by (simp add: rebalanced_refl)
next
  case (Cons e es)
  show ?case
    using rebalanced_trans [OF transfer_rebalanced Cons.IH [of "transfer s ov w st e"]]
    by simp
qed

lemma redistribute_source_rebalanced: "rebalanced (fst st) (fst (redistribute_source st so))"
  by (simp add: redistribute_source_def rebalanced_refl fold_transfer_rebalanced
      split: option.splits)

lemma fold_redistribute_rebalanced:
  "rebalanced (fst st) (fst (foldl redistribute_source st ovs))"
proof (induction ovs arbitrary: st)
  case Nil
  then show ?case by (simp add: rebalanced_refl)
next
  case (Cons so ovs)
  show ?case
    using rebalanced_trans [OF redistribute_source_rebalanced
        Cons.IH [of "redistribute_source st so"]]
    by simp
qed

lemma redistributeOverflow_rebalanced:
  "rebalanced accounts (fst (redistributeOverflow accounts ovs))"
  using fold_redistribute_rebalanced [of "(accounts, [])" ovs]
  by (simp add: redistributeOverflow_def)

lemma targeted_rounds_rebalanced:
  "rebalanced accounts (fst (targeted_rounds n i eps accounts))"
proof (induction n arbitrary: i accounts)
  case 0
  then show ?case by (simp add: rebalanced_refl)
next
  case (Suc n)
  let ?ovs = "fst (collect_positive overflow_of accounts)"
  let ?next = "fst (redistributeOverflow (map clamp accounts) ?ovs)"
  have "rebalanced accounts ?next"
    using rebalanced_trans [OF clamp_rebalanced redistributeOverflow_rebalanced] .
  from rebalanced_trans [OF this Suc.IH [of ?next "Suc i"]]
  show ?case by (simp add: Let_def clamp_rebalanced)
qed

lemma targeted_rounds_length: "length (fst (snd (targeted_rounds n i eps accounts))) \<le> n"
  by (induction n arbitrary: i accounts) (simp_all add: Let_def)

lemma targeted_rounds_converged:
  "snd (snd (targeted_rounds n i eps accounts)) \<Longrightarrow>
   list_all (\<lambda>a. balance a \<le> maxThreshold a) (fst (targeted_rounds n i eps accounts))"
proof (induction n arbitrary: i accounts)
  case 0
  then show ?case by simp
next
  case (Suc n)
  have c: "list_all (\<lambda>a. balance a \<le> maxThreshold a) (map clamp accounts)"
    by (induction accounts) (auto simp add: clamp_def overflow_of_def)
  from Suc.prems Suc.IH show ?case
    by (simp add: Let_def c split: if_splits)
qed

text \<open>
  C10: \<open>runTargetedDistribution\<close> does not validate. On every list of accounts, also one
  that \<open>validateNetwork\<close> rejects, it returns a result and leaves the caller's accounts with
  balances rewritten and nothing else changed; the result reports the balances before and
  after the call. It records at most \<open>maxIterations\<close> rounds, and when it reports convergence
  no account is left above its maximum. As soon as one round is allowed, the first record holds
  every balance clamped to the account's maximum and the overflow so removed; if that
  overflow is below epsilon the caller's accounts are left clamped, and otherwise a single round
  leaves them clamped and then credited with the redistributed overflow.
\<close>

theorem targeted_runs_without_validation:
  "(let run = runTargetedDistribution accounts cfg;
        clamped = map (\<lambda>a. a\<lparr>balance := min (balance a) (maxThreshold a)\<rparr>) accounts;
        removed = (\<Sum>a\<leftarrow>accounts. max 0 (balance a - maxThreshold a))
    in rebalanced accounts (fst run) \<and>
       initialBalances (snd run) = snapshot accounts \<and>
       finalBalances (snd run) = snapshot (fst run) \<and>
       totalFunding (snd run) = 0 \<and>
       iterationCount (snd run) = length (iterations (snd run)) \<and>
       length (iterations (snd run)) \<le> maxIterations cfg \<and>
       (converged (snd run) \<longrightarrow> list_all (\<lambda>a. balance a \<le> maxThreshold a) (fst run)) \<and>
       (0 < maxIterations cfg \<longrightarrow>
          iterations (snd run) \<noteq> [] \<and>
          balances (hd (iterations (snd run))) = snapshot clamped \<and>
          totalOverflow (hd (iterations (snd run))) = removed) \<and>
       (0 < maxIterations cfg \<and> removed < epsilon cfg \<longrightarrow>
          fst run = clamped \<and> converged (snd run)) \<and>
       (maxIterations cfg = 1 \<and> \<not> removed < epsilon cfg \<longrightarrow>
          fst run = fst (redistributeOverflow clamped (fst (collect_positive overflow_of accounts)))
          \<and> \<not> converged (snd run)))"
proof -
  let ?run = "runTargetedDistribution accounts cfg"
  let ?loop = "targeted_rounds (maxIterations cfg) 0 (epsilon cfg) accounts"
  have c: "map clamp accounts
      = map (\<lambda>a. a\<lparr>balance := min (balance a) (maxThreshold a)\<rparr>) accounts"
    by (simp add: clamp_min)
  have t: "snd (collect_positive overflow_of accounts)
      = (\<Sum>a\<leftarrow>accounts. max 0 (balance a - maxThreshold a))"
    by (simp add: collect_positive_total overflow_of_def)
  have run: "fst ?run = fst ?loop" "iterations (snd ?run) = fst (snd ?loop)"
    "converged (snd ?run) = snd (snd ?loop)"
    by (simp_all add: runTargetedDistribution_def Let_def)
  have p1: "rebalanced accounts (fst ?run)"
    by (simp add: run targeted_rounds_rebalanced)
  have p2: "initialBalances (snd ?run) = snapshot accounts"
    "finalBalances (snd ?run) = snapshot (fst ?run)"
    "totalFunding (snd ?run) = 0"
    "iterationCount (snd ?run) = length (iterations (snd ?run))"
    by (simp_all add: runTargetedDistribution_def Let_def)
  have p3: "length (iterations (snd ?run)) \<le> maxIterations cfg"
    by (simp add: run targeted_rounds_length)
  have p4: "list_all (\<lambda>a. balance a \<le> maxThreshold a) (fst ?run)" if "converged (snd ?run)"
    using that targeted_rounds_converged [of "maxIterations cfg" 0 "epsilon cfg" accounts]
    by (simp add: run)
  have p5: "iterations (snd ?run) \<noteq> [] \<and>
      balances (hd (iterations (snd ?run))) = snapshot (map clamp accounts) \<and>
      totalOverflow (hd (iterations (snd ?run))) = snd (collect_positive overflow_of accounts)"
    if "0 < maxIterations cfg"
  proof -
    from that obtain n where n: "maxIterations cfg = Suc n"
      by (cases "maxIterations cfg") simp_all
    obtain r rest where
      "fst (snd (targeted_rounds (Suc n) 0 (epsilon cfg) accounts)) = r # rest"
      "balances r = snapshot (map clamp accounts)"
      "totalOverflow r = snd (collect_positive overflow_of accounts)"
      using targeted_rounds_first by blast
    then show ?thesis
      by (simp add: run n)
  qed
  have p6: "fst ?run = map clamp accounts \<and> converged (snd ?run)"
    if "0 < maxIterations cfg" "snd (collect_positive overflow_of accounts) < epsilon cfg"
  proof -
    from that(1) obtain n where n: "maxIterations cfg = Suc n"
      by (cases "maxIterations cfg") simp_all
    from that(2) show ?thesis
      by (simp add: run n Let_def)
  qed
  have p7: "fst ?run = fst (redistributeOverflow (map clamp accounts)
                             (fst (collect_positive overflow_of accounts)))
      \<and> \<not> converged (snd ?run)"
    if "maxIterations cfg = 1" "\<not> snd (collect_positive overflow_of accounts) < epsilon cfg"
    using that by (simp add: run Let_def)
  show ?thesis
    unfolding Let_def c [symmetric] t [symmetric]
    using p1 p2 p3 p4 p5 p6 p7 by blast
qed

lemma rejected_example_invalid:
  "valid (validateNetwork rejected_example) = False"
  "errors (validateNetwork rejected_example)
     = [SelfAllocation ''a'', TargetMissing ''a'' ''ghost'', TotalExceeds ''a'' 120,
        PrincipalNegative ''b'']"
  by (simp_all add: validateNetwork_def rejected_example_def account_errors_def
      allocation_errors_def totalAllocation_def)

lemma rejected_example_clamped:
  "map (\<lambda>a. a\<lparr>balance := min (balance a) (maxThreshold a)\<rparr>) rejected_example
     = with_balances rejected_example [100, - 10]"
  "(\<Sum>a\<leftarrow>rejected_example. max 0 (balance a - maxThreshold a)) = 50"
  "fst (collect_positive overflow_of rejected_example) = [(''a'', 50)]"
  by (simp_all add: rejected_example_def with_balances_def collect_positive_def overflow_of_def)

lemma rejected_example_redistributed:
  "fst (redistributeOverflow (with_balances rejected_example [100, - 10]) [(''a'', 50)])
     = with_balances rejected_example [125, - 10]"
  by (simp add: rejected_example_def with_balances_def redistributeOverflow_def
      redistribute_source_def transfer_def totalAllocation_def Let_def)

lemma targeted_configs:
  "maxIterations single_round_config = 1" "epsilon single_round_config = 1 / 100"
  "maxIterations loose_config = 3" "epsilon loose_config = 20"
  "maxIterations slack_config = 1" "epsilon slack_config = 60"
  by (simp_all add: single_round_config_def loose_config_def slack_config_def)

lemma rejected_example_loose_run:
  "converged (snd (runTargetedDistribution rejected_example loose_config))"
  "length (iterations (snd (runTargetedDistribution rejected_example loose_config))) = 3"
  by (simp_all add: runTargetedDistribution_def loose_config_def eval_nat_numeral Let_def
      rejected_example_def collect_positive_def overflow_of_def clamp_def
      redistributeOverflow_def redistribute_source_def transfer_def totalAllocation_def
      snapshot_def new_Map_def flow_key_def)

theorem targeted_runs_without_validation_witness:
  "valid (validateNetwork rejected_example) = False \<and>
   fst (runTargetedDistribution rejected_example slack_config)
     = with_balances rejected_example [100, - 10] \<and>
   converged (snd (runTargetedDistribution rejected_example slack_config)) \<and>
   fst (runTargetedDistribution rejected_example single_round_config)
     = with_balances rejected_example [125, - 10] \<and>
   \<not> converged (snd (runTargetedDistribution rejected_example single_round_config)) \<and>
   balances (hd (iterations (snd (runTargetedDistribution rejected_example single_round_config))))
     = [(''a'', 100), (''b'', - 10)] \<and>
   totalOverflow (hd (iterations (snd (runTargetedDistribution rejected_example single_round_config))))
     = 50 \<and>
   converged (snd (runTargetedDistribution rejected_example loose_config)) \<and>
   list_all (\<lambda>a. balance a \<le> maxThreshold a)
     (fst (runTargetedDistribution rejected_example loose_config)) \<and>
   rebalanced rejected_example (fst (runTargetedDistribution rejected_example loose_config))"
  using targeted_runs_without_validation [of rejected_example slack_config]
    targeted_runs_without_validation [of rejected_example single_round_config]
    targeted_runs_without_validation [of rejected_example loose_config]
    rejected_example_invalid(1) rejected_example_clamped rejected_example_redistributed
    targeted_configs rejected_example_loose_run
  by (simp add: Let_def) (simp add: rejected_example_def with_balances_def snapshot_def new_Map_def)

section \<open>Phase A with no capacity left\<close>

text \<open>
  In the discrete engine, when the funding covers the shortfalls and no account has capacity
  left after the minimums are filled, Phase A stops there, whatever the remainder is.
\<close>

lemma distributeInitial_no_capacity:
  assumes "snd (collect_positive shortfall_of accounts) \<le> funding"
    and "snd (collect_positive capacity_of (fill_minimums accounts)) = 0"
  shows "distributeInitial accounts funding = fill_minimums accounts"
  using assms by (simp add: distributeInitial_def Let_def)

text \<open>
  In \<^verbatim>\<open>lib/tbff\<close> the same situation ends in \<open>distributeEvenly\<close>: every account receives the
  remainder divided by the number of accounts.
\<close>

lemma fillAllMinimums_length:
  "length (accounts_net (fillAllMinimums network)) = length (accounts_net network)"
  by (simp add: fillAllMinimums_def calculateNetworkTotals_def)

lemma distributeEvenly_balances:
  "map balance_ffa (accounts_net (distributeEvenly network funding))
     = map (\<lambda>a. balance_ffa a + funding / real (length (accounts_net network)))
         (accounts_net network)"
  by (simp add: distributeEvenly_def calculateNetworkTotals_def
      updateAccountComputedProperties_def Let_def comp_def)

lemma initialDistribution_even_split:
  assumes "0 < funding"
    and "(\<Sum>a\<leftarrow>accounts_net network. max 0 (minThreshold_ffa a - balance_ffa a)) \<le> funding"
    and "(\<Sum>a\<leftarrow>accounts_net (fillAllMinimums network).
            max 0 (maxThreshold_ffa a - balance_ffa a)) = 0"
  shows "map balance_ffa (accounts_net (initialDistribution network funding))
     = map (\<lambda>a. balance_ffa a
                  + (funding - (\<Sum>a\<leftarrow>accounts_net network.
                                  max 0 (minThreshold_ffa a - balance_ffa a)))
                    / real (length (accounts_net network)))
         (accounts_net (fillAllMinimums network))"
proof -
  let ?S = "\<Sum>a\<leftarrow>accounts_net network. max 0 (minThreshold_ffa a - balance_ffa a)"
  have run: "initialDistribution network funding
      = distributeByCapacity (fillAllMinimums network) (funding - ?S)"
    using assms(1,2) by (simp add: initialDistribution_def Let_def foldl_add_sum_list)
  show ?thesis
  proof (cases "funding - ?S \<le> 0")
    case True
    with assms(2) have "funding - ?S = 0" by simp
    then show ?thesis unfolding run by (simp add: distributeByCapacity_def)
  next
    case False
    with assms(3) show ?thesis
      unfolding run
      by (simp add: distributeByCapacity_def Let_def foldl_add_sum_list
          distributeEvenly_balances fillAllMinimums_length)
  qed
qed

text \<open>
  C1: with funding of 50 for one account that sits at its maximum of 100, \<open>distributeInitial\<close>
  of the discrete engine returns the account unchanged: the remainder of 50 is dropped. The
  sibling \<open>initialDistribution\<close> of \<^verbatim>\<open>lib/tbff\<close> splits it evenly and yields 150.
\<close>

theorem distributeInitial_drops_remainder:
  "distributeInitial full_example 50 = full_example \<and>
   map balance (distributeInitial full_example 50) = [100] \<and>
   map balance_ffa (accounts_net (initialDistribution full_example_ffa 50)) = [150]"
  by (simp add: distributeInitial_def full_example_def collect_positive_def shortfall_of_def
      capacity_of_def fill_minimums_def Let_def or0_def map_get_def
      initialDistribution_def full_example_ffa_def status_example_def fillAllMinimums_def
      calculateNetworkTotals_def distributeByCapacity_def distributeEvenly_def
      updateAccountComputedProperties_def)

section \<open>Redistribution never adds funds\<close>

lemma grown_refl: "grown accounts accounts"
  by (simp add: grown_def list_all2_same)

lemma grown_trans: "grown xs ys \<Longrightarrow> grown ys zs \<Longrightarrow> grown xs zs"
  unfolding grown_def
proof (erule list_all2_trans [rotated], assumption)
  fix a b c :: account
  assume "b = a\<lparr>balance := balance b\<rparr> \<and> balance a \<le> balance b"
    and "c = b\<lparr>balance := balance c\<rparr> \<and> balance b \<le> balance c"
  then have "c = a\<lparr>balance := balance b\<rparr>\<lparr>balance := balance c\<rparr>" "balance a \<le> balance c"
    by auto
  then show "c = a\<lparr>balance := balance c\<rparr> \<and> balance a \<le> balance c"
    by simp
qed

lemma grown_fields:
  assumes "grown xs ys"
  shows "map allocations ys = map allocations xs"
    and "map id_acc ys = map id_acc xs"
    and "map maxThreshold ys = map maxThreshold xs"
proof -
  have p: "allocations b = allocations a \<and> id_acc b = id_acc a \<and> maxThreshold b = maxThreshold a"
    if "b = a\<lparr>balance := r\<rparr>" for a b :: account and r
    using that by simp
  from assms have "list_all2 (\<lambda>a b. allocations b = allocations a \<and> id_acc b = id_acc a \<and>
      maxThreshold b = maxThreshold a) xs ys"
    unfolding grown_def by (rule list_all2_mono) (metis p)
  then show "map allocations ys = map allocations xs"
    and "map id_acc ys = map id_acc xs"
    and "map maxThreshold ys = map maxThreshold xs"
    by (induction rule: list_all2_induct) simp_all
qed

lemma nonneg_weights_map: 
  "nonneg_weights accounts = list_all (list_all (\<lambda>e. 0 \<le> snd e)) (map allocations accounts)"
  by (simp add: nonneg_weights_def list_all_iff)

lemma nonneg_weights_grown: "grown xs ys \<Longrightarrow> nonneg_weights ys = nonneg_weights xs"
  by (simp add: nonneg_weights_map grown_fields)

lemma add_balance_grown: "0 \<le> amount \<Longrightarrow> grown accounts (add_balance k amount accounts)"
proof (induction accounts)
  case Nil
  then show ?case by (simp add: grown_def)
next
  case (Cons a accounts)
  have "grown accounts accounts" by (rule grown_refl)
  with Cons show ?case by (simp add: grown_def)
qed

lemma add_balance_total:
  "total_balance (add_balance k amount accounts)
     = total_balance accounts + (if k \<in> set (map id_acc accounts) then amount else 0)"
  by (induction accounts) (auto simp add: total_balance_def)

lemma accountMap_get_None_iff:
  "accountMap_get accounts k = None \<longleftrightarrow> k \<notin> set (map id_acc accounts)"
  by (induction accounts) (auto split: option.splits)

lemma accountMap_get_Some:
  "accountMap_get accounts k = Some a \<Longrightarrow> a \<in> set accounts \<and> id_acc a = k"
  by (induction accounts) (auto split: option.splits if_splits)

lemma transfer_fst:
  "fst (transfer s ov w st e)
     = (if fst e \<in> set (map id_acc (fst st))
        then add_balance (fst e) (ov * (snd e / w)) (fst st) else fst st)"
proof (cases "accountMap_get (fst st) (fst e)")
  case None
  moreover from None have "fst e \<notin> set (map id_acc (fst st))"
    using accountMap_get_None_iff [of "fst st" "fst e"] by blast
  ultimately show ?thesis by (simp add: transfer_def)
next
  case (Some a)
  moreover from Some have "fst e \<in> set (map id_acc (fst st))"
    using accountMap_get_None_iff [of "fst st" "fst e"] by simp
  ultimately show ?thesis by (simp add: transfer_def Let_def)
qed

lemma transfer_step:
  assumes "0 \<le> ov" and "0 < w" and "0 \<le> snd e"
  shows "grown (fst st) (fst (transfer s ov w st e))"
    and "total_balance (fst (transfer s ov w st e)) \<le> total_balance (fst st) + ov * (snd e / w)"
proof -
  from assms have amt: "0 \<le> ov * (snd e / w)" by simp
  show "grown (fst st) (fst (transfer s ov w st e))"
    unfolding transfer_fst using add_balance_grown [OF amt] grown_refl by presburger
  show "total_balance (fst (transfer s ov w st e)) \<le> total_balance (fst st) + ov * (snd e / w)"
    using amt by (simp add: transfer_fst add_balance_total)
qed

lemma fold_transfer_grown:
  assumes "0 \<le> ov" and "0 < w" and "list_all (\<lambda>e. 0 \<le> snd e) al"
  shows "grown (fst st) (fst (foldl (transfer s ov w) st al)) \<and>
         total_balance (fst (foldl (transfer s ov w) st al))
           \<le> total_balance (fst st) + ov * (sum_list (map snd al) / w)"
  using assms(3)
proof (induction al arbitrary: st)
  case Nil
  then show ?case by (simp add: grown_refl)
next
  case (Cons e al)
  let ?st = "transfer s ov w st e"
  from Cons.prems have e: "0 \<le> snd e" and al: "list_all (\<lambda>e. 0 \<le> snd e) al" by simp_all
  note step = transfer_step [OF assms(1,2) e, where st = st and s = s]
  from Cons.IH [OF al, of ?st]
  have g: "grown (fst ?st) (fst (foldl (transfer s ov w) ?st al))"
    and t: "total_balance (fst (foldl (transfer s ov w) ?st al))
           \<le> total_balance (fst ?st) + ov * (sum_list (map snd al) / w)"
    by simp_all
  have "ov * ((snd e + sum_list (map snd al)) / w)
      = ov * (snd e / w) + ov * (sum_list (map snd al) / w)"
    by (simp add: add_divide_distrib distrib_left)
  with step(2) t have "total_balance (fst (foldl (transfer s ov w) ?st al))
      \<le> total_balance (fst st) + ov * ((snd e + sum_list (map snd al)) / w)"
    by linarith
  with grown_trans [OF step(1) g] show ?case by simp
qed

lemma redistribute_source_grown:
  assumes "nonneg_weights (fst st)" and "0 \<le> snd so"
  shows "grown (fst st) (fst (redistribute_source st so)) \<and>
         total_balance (fst (redistribute_source st so)) \<le> total_balance (fst st) + snd so"
proof (cases "accountMap_get (fst st) (fst so)")
  case None
  with assms(2) show ?thesis by (simp add: redistribute_source_def grown_refl)
next
  case (Some src)
  let ?w = "totalAllocation (allocations src)"
  from Some have "src \<in> set (fst st)" by (simp add: accountMap_get_Some)
  with assms(1) have al: "list_all (\<lambda>e. 0 \<le> snd e) (allocations src)"
    by (simp add: nonneg_weights_def list_all_iff)
  then have w0: "0 \<le> ?w"
    by (auto simp add: totalAllocation_sum_list list_all_iff intro!: sum_list_nonneg)
  show ?thesis
  proof (cases "?w = 0")
    case True
    with Some assms(2) show ?thesis by (simp add: redistribute_source_def grown_refl)
  next
    case False
    with w0 have w: "0 < ?w" by simp
    from fold_transfer_grown [OF assms(2) w al, of st "fst so"] False Some w
    show ?thesis by (simp add: redistribute_source_def totalAllocation_sum_list)
  qed
qed

lemma fold_redistribute_grown:
  assumes "list_all (\<lambda>e. 0 \<le> snd e) ovs" and "nonneg_weights (fst st)"
  shows "grown (fst st) (fst (foldl redistribute_source st ovs)) \<and>
         total_balance (fst (foldl redistribute_source st ovs))
           \<le> total_balance (fst st) + map_total ovs"
  using assms
proof (induction ovs arbitrary: st)
  case Nil
  then show ?case by (simp add: grown_refl map_total_def)
next
  case (Cons so ovs)
  let ?st = "redistribute_source st so"
  from Cons.prems have so: "0 \<le> snd so" and ovs: "list_all (\<lambda>e. 0 \<le> snd e) ovs" by simp_all
  from redistribute_source_grown [OF Cons.prems(2) so]
  have g1: "grown (fst st) (fst ?st)"
    and t1: "total_balance (fst ?st) \<le> total_balance (fst st) + snd so" by simp_all
  from g1 Cons.prems(2) have "nonneg_weights (fst ?st)" by (simp add: nonneg_weights_grown)
  from Cons.IH [OF ovs this]
  have g2: "grown (fst ?st) (fst (foldl redistribute_source ?st ovs))"
    and t2: "total_balance (fst (foldl redistribute_source ?st ovs))
           \<le> total_balance (fst ?st) + map_total ovs" by simp_all
  from t1 t2 have "total_balance (fst (foldl redistribute_source ?st ovs))
      \<le> total_balance (fst st) + map_total (so # ovs)"
    by (simp add: map_total_def)
  with grown_trans [OF g1 g2] show ?case by simp
qed

lemma redistributeOverflow_grown:
  assumes "list_all (\<lambda>e. 0 \<le> snd e) ovs" and "nonneg_weights accounts"
  shows "grown accounts (fst (redistributeOverflow accounts ovs))"
    and "total_balance (fst (redistributeOverflow accounts ovs))
           \<le> total_balance accounts + map_total ovs"
  using fold_redistribute_grown [OF assms(1), of "(accounts, [])"] assms(2)
  by (simp_all add: redistributeOverflow_def)


lemma map_set_total:
  assumes "list_all (\<lambda>e. 0 \<le> snd e) m" and "0 \<le> (v::real)"
  shows "list_all (\<lambda>e. 0 \<le> snd e) (map_set k v m) \<and> sum_list (map snd (map_set k v m)) \<le> sum_list (map snd m) + v"
  using assms by (induction m) auto

lemma collect_positive_map_aux:
  assumes "list_all (\<lambda>e. 0 \<le> snd e) m"
  shows "list_all (\<lambda>e. 0 \<le> snd e)
           (fst (foldl (\<lambda>acc a. if amount a > 0
                     then (map_set (id_acc a) (amount a) (fst acc), snd acc + amount a)
                     else acc) (m, t::real) accounts)) \<and>
         map_total (fst (foldl (\<lambda>acc a. if amount a > 0
                     then (map_set (id_acc a) (amount a) (fst acc), snd acc + amount a)
                     else acc) (m, t) accounts))
           \<le> map_total m + (\<Sum>a\<leftarrow>accounts. max 0 (amount a))"
  using assms
proof (induction accounts arbitrary: m t)
  case Nil
  then show ?case by simp
next
  case (Cons a accounts)
  show ?case
  proof (cases "amount a > 0")
    case True
    then have v: "0 \<le> amount a" by simp
    note ms = map_set_total [OF Cons.prems v, of "id_acc a"]
    from Cons.IH [of "map_set (id_acc a) (amount a) m" "t + amount a"] ms True
    show ?thesis by (simp add: map_total_def max_def)
  next
    case False
    with Cons.IH [of m t] Cons.prems show ?thesis by (simp add: max_def)
  qed
qed

lemma collect_positive_map:
  "list_all (\<lambda>e. 0 \<le> snd e) (fst (collect_positive amount accounts))"
  "map_total (fst (collect_positive amount accounts)) \<le> (\<Sum>a\<leftarrow>accounts. max 0 (amount a))"
  using collect_positive_map_aux [of "[]" amount 0 accounts]
  by (simp_all add: collect_positive_def map_total_def)



lemma clamp_allocations: "map allocations (map clamp accounts) = map allocations accounts"
  by (simp add: clamp_def)



lemma distributeInitial_allocations:
  "map allocations (distributeInitial accounts funding) = map allocations accounts"
  by (simp add: distributeInitial_def fill_minimums_def Let_def)

lemma valid_nonneg_weights: "valid (validateNetwork accounts) \<Longrightarrow> nonneg_weights accounts"
  by (auto simp add: valid_validateNetwork account_errors_Nil nonneg_weights_def list_all_iff
      allocation_ok_def)

lemma chain_example_valid: "valid (validateNetwork chain_example)"
  by (simp add: validateNetwork_def chain_example_def account_errors_def allocation_errors_def
      totalAllocation_def)

lemma chain_example_initial:
  "distributeInitial chain_example 60 = with_balances chain_example [200, 404 / 5, 296 / 5]"
  by (simp add: distributeInitial_def fill_minimums_def chain_example_def collect_positive_def
      shortfall_of_def capacity_of_def Let_def or0_def map_get_def with_balances_def)

lemma chain_example_rounds:
  "overflow_rounds 3 0 (1 / 100) (with_balances chain_example [200, 404 / 5, 296 / 5])
     = (with_balances chain_example [100, 100, 140], iterations chain_result, True)"
  by (simp add: eval_nat_numeral Let_def chain_example_def with_balances_def chain_result_def
      calculateOverflow_def collect_positive_def overflow_of_def clamp_def map_values_def
      redistributeOverflow_def redistribute_source_def transfer_def totalAllocation_def
      snapshot_def new_Map_def flow_key_def)

lemma chain_example_run:
  "runDistribution chain_example 60 chain_config
     = (with_balances chain_example [100, 100, 140], Inr chain_result)"
  by (simp add: runDistribution_def chain_example_valid chain_example_initial Let_def
      chain_config_def chain_example_rounds)
     (simp add: chain_result_def chain_example_def with_balances_def snapshot_def new_Map_def)








lemma rounding_example_exact:
  "map totalOverflow (fst (snd (overflow_rounds 3 0 (1 / 100) rounding_example))) = [70, 70, 70]"
  by (simp add: eval_nat_numeral Let_def rounding_example_def
      calculateOverflow_def collect_positive_def overflow_of_def clamp_def map_values_def
      redistributeOverflow_def redistribute_source_def transfer_def totalAllocation_def
      snapshot_def new_Map_def flow_key_def)


section \<open>Conservation\<close>

lemma map_set_append: "k \<notin> fst ` set m \<Longrightarrow> map_set k v m = m @ [(k, v)]"
  by (induction m) auto

lemma new_Map_aux:
  "distinct (map fst (m @ es)) \<Longrightarrow> foldl (\<lambda>m e. map_set (fst e) (snd e) m) m es = m @ es"
proof (induction es arbitrary: m)
  case Nil
  then show ?case by simp
next
  case (Cons e es)
  from Cons.prems have "fst e \<notin> fst ` set m" by auto
  then have "map_set (fst e) (snd e) m = m @ [e]" by (simp add: map_set_append)
  moreover from Cons.prems have "distinct (map fst ((m @ [e]) @ es))" by simp
  ultimately show ?case using Cons.IH [of "m @ [e]"] by simp
qed

lemma new_Map_distinct: "distinct (map fst es) \<Longrightarrow> new_Map es = es"
  using new_Map_aux [of "[]" es] by (simp add: new_Map_def)

lemma snapshot_distinct:
  "distinct (map id_acc accounts) \<Longrightarrow> snapshot accounts = map (\<lambda>a. (id_acc a, balance a)) accounts"
  by (simp add: snapshot_def new_Map_distinct comp_def)

lemma snapshot_total:
  "distinct (map id_acc accounts) \<Longrightarrow> map_total (snapshot accounts) = total_balance accounts"
  by (simp add: snapshot_distinct map_total_def total_balance_def comp_def)

lemma collect_positive_distinct_aux:
  "distinct (map fst m @ map id_acc accounts) \<Longrightarrow>
   fst (foldl (\<lambda>acc a. if amount a > 0
                     then (map_set (id_acc a) (amount a) (fst acc), snd acc + amount a)
                     else acc) (m, t::real) accounts)
     = m @ map (\<lambda>a. (id_acc a, amount a)) (filter (\<lambda>a. amount a > 0) accounts)"
proof (induction accounts arbitrary: m t)
  case Nil
  then show ?case by simp
next
  case (Cons a accounts)
  show ?case
  proof (cases "amount a > 0")
    case True
    from Cons.prems have "id_acc a \<notin> fst ` set m" by auto
    then have ms: "map_set (id_acc a) (amount a) m = m @ [(id_acc a, amount a)]"
      by (simp add: map_set_append)
    from Cons.prems have "distinct (map fst (m @ [(id_acc a, amount a)]) @ map id_acc accounts)"
      by auto
    from Cons.IH [OF this, of "t + amount a"] True ms show ?thesis by simp
  next
    case False
    from Cons.prems have "distinct (map fst m @ map id_acc accounts)" by auto
    from Cons.IH [OF this, of t] False show ?thesis by simp
  qed
qed

lemma collect_positive_distinct:
  "distinct (map id_acc accounts) \<Longrightarrow>
   fst (collect_positive amount accounts)
     = map (\<lambda>a. (id_acc a, amount a)) (filter (\<lambda>a. amount a > 0) accounts)"
  using collect_positive_distinct_aux [of "[]" accounts amount 0]
  by (simp add: collect_positive_def)

lemma filter_positive_sum:
  "sum_list (map amount (filter (\<lambda>a. amount a > 0) accounts))
     = (\<Sum>a\<leftarrow>accounts. max 0 (amount a :: real))"
  by (induction accounts) (auto simp add: max_def)

lemma map_of_filter_distinct:
  "distinct (map id_acc accounts) \<Longrightarrow> a \<in> set accounts \<Longrightarrow>
   map_of (map (\<lambda>a. (id_acc a, amount a)) (filter P accounts)) (id_acc a)
     = (if P a then Some (amount a) else None)"
proof (induction accounts)
  case Nil
  then show ?case by simp
next
  case (Cons b accounts)
  show ?case
  proof (cases "a = b")
    case True
    from Cons.prems(1) have "id_acc b \<notin> id_acc ` set (filter P accounts)" by auto
    then have "map_of (map (\<lambda>a. (id_acc a, amount a)) (filter P accounts)) (id_acc b) = None"
      by (simp add: map_of_eq_None_iff image_image)
    with True show ?thesis by simp
  next
    case False
    with Cons.prems have a: "a \<in> set accounts" by simp
    then have "id_acc a \<in> id_acc ` set accounts" by (rule imageI)
    with Cons.prems(1) have "id_acc a \<noteq> id_acc b" by auto
    with Cons.IH a Cons.prems(1) show ?thesis by simp
  qed
qed

lemma collect_positive_lookup:
  "distinct (map id_acc accounts) \<Longrightarrow> a \<in> set accounts \<Longrightarrow>
   or0 (map_get (fst (collect_positive amount accounts)) (id_acc a)) = max 0 (amount a)"
  by (simp add: collect_positive_distinct map_get_def map_of_filter_distinct or0_def max_def)

lemma add_share_total:
  "total_balance (map (\<lambda>a. if g a > 0 then a\<lparr>balance := balance a + g a * c\<rparr> else a) accounts)
     = total_balance accounts + (\<Sum>a\<leftarrow>accounts. max 0 (g a)) * c"
  by (induction accounts) (auto simp add: total_balance_def max_def algebra_simps)

lemma share_map_total:
  assumes "distinct (map id_acc accounts)"
  shows "total_balance
           (map (\<lambda>a. if or0 (map_get (fst (collect_positive g accounts)) (id_acc a)) > 0
                      then a\<lparr>balance := balance a
                             + (or0 (map_get (fst (collect_positive g accounts)) (id_acc a)) / d) * f\<rparr>
                      else a) accounts)
         = total_balance accounts + (\<Sum>a\<leftarrow>accounts. max 0 (g a)) * (f / d)"
proof -
  have "map (\<lambda>a. if or0 (map_get (fst (collect_positive g accounts)) (id_acc a)) > 0
                  then a\<lparr>balance := balance a
                         + (or0 (map_get (fst (collect_positive g accounts)) (id_acc a)) / d) * f\<rparr>
                  else a) accounts
      = map (\<lambda>a. if g a > 0 then a\<lparr>balance := balance a + g a * (f / d)\<rparr> else a) accounts"
    by (rule map_cong) (auto simp add: collect_positive_lookup [OF assms] max_def)
  then show ?thesis by (simp only: add_share_total)
qed

lemma fill_minimums_total:
  assumes "distinct (map id_acc accounts)"
  shows "total_balance (fill_minimums accounts)
         = total_balance accounts + (\<Sum>a\<leftarrow>accounts. max 0 (shortfall_of a))"
proof -
  have "fill_minimums accounts
      = map (\<lambda>a. if shortfall_of a > 0 then a\<lparr>balance := balance a + shortfall_of a * 1\<rparr> else a)
          accounts"
    unfolding fill_minimums_def Let_def
    by (rule map_cong)
      (auto simp add: collect_positive_lookup [OF assms] max_def shortfall_of_def)
  then show ?thesis using add_share_total [of shortfall_of 1 accounts] by simp
qed

lemma fill_minimums_ids: "map id_acc (fill_minimums accounts) = map id_acc accounts"
  by (simp add: fill_minimums_def Let_def)

lemma distributeInitial_ids: "map id_acc (distributeInitial accounts funding) = map id_acc accounts"
  by (simp add: distributeInitial_def fill_minimums_def Let_def)

lemma distributeInitial_total:
  assumes "distinct (map id_acc accounts)" and "0 \<le> funding"
    and "phase_A_keeps accounts funding"
  shows "total_balance (distributeInitial accounts funding) = total_balance accounts + funding"
proof -
  let ?T = "\<Sum>a\<leftarrow>accounts. max 0 (shortfall_of a)"
  let ?filled = "fill_minimums accounts"
  let ?C = "\<Sum>a\<leftarrow>?filled. max 0 (capacity_of a)"
  have T: "snd (collect_positive shortfall_of accounts) = ?T"
    by (rule collect_positive_total)
  have C: "snd (collect_positive capacity_of ?filled) = ?C"
    by (rule collect_positive_total)
  have d: "distinct (map id_acc ?filled)"
    using assms(1) by (simp add: fill_minimums_ids)
  show ?thesis
  proof (cases "funding < ?T")
    case True
    with assms(2) have "?T \<noteq> 0" by simp
    with True show ?thesis
      by (simp add: distributeInitial_def T Let_def share_map_total [OF assms(1)])
  next
    case False
    show ?thesis
    proof (cases "funding - ?T \<le> 0")
      case True
      with False have "funding = ?T" by simp
      with False True show ?thesis
        by (simp add: distributeInitial_def T Let_def fill_minimums_total [OF assms(1)])
    next
      case rem: False
      with assms(3) have "?C \<noteq> 0" by (simp add: phase_A_keeps_def T C)
      with False rem show ?thesis
        by (simp add: distributeInitial_def T C Let_def share_map_total [OF d]
            fill_minimums_total [OF assms(1)])
    qed
  qed
qed

lemma clamp_total:
  "total_balance (map clamp accounts) + pending_overflow accounts = total_balance accounts"
  by (induction accounts)
    (auto simp add: total_balance_def pending_overflow_def clamp_def overflow_of_def max_def)

lemma overflow_map_distinct:
  assumes "distinct (map id_acc accounts)"
  shows "map_total (fst (collect_positive overflow_of accounts)) = pending_overflow accounts"
proof -
  have "(\<lambda>a. max 0 (overflow_of a)) = overflow_of"
    by (simp add: overflow_of_def fun_eq_iff)
  then show ?thesis
    by (simp add: collect_positive_distinct [OF assms] map_total_def comp_def
        filter_positive_sum pending_overflow_def)
qed

lemma grown_accountMap_get:
  "grown xs ys \<Longrightarrow>
   map_option allocations (accountMap_get ys k) = map_option allocations (accountMap_get xs k)"
  unfolding grown_def
proof (induction rule: list_all2_induct)
  case Nil
  then show ?case by simp
next
  case (Cons a xs b ys)
  from Cons.hyps(1) have "id_acc b = id_acc a" and "allocations b = allocations a"
    by (metis account.select_convs(1) account.surjective account.update_convs(3),
        metis account.select_convs(6) account.surjective account.update_convs(3))
  with Cons.IH show ?case
    by (cases "accountMap_get ys k"; cases "accountMap_get xs k") auto
qed

lemma source_allocates_grown:
  assumes "grown xs ys"
  shows "source_allocates ys = source_allocates xs"
proof (rule ext)
  fix so
  show "source_allocates ys so = source_allocates xs so"
    using grown_accountMap_get [OF assms, of "fst so"]
    by (auto simp add: source_allocates_def split: option.splits)
qed

lemma targets_exist_map:
  "targets_exist accounts
     = list_all (list_all (\<lambda>e. fst e \<in> set (map id_acc accounts))) (map allocations accounts)"
  by (simp add: targets_exist_def list_all_iff)

lemma targets_exist_grown: "grown xs ys \<Longrightarrow> targets_exist ys = targets_exist xs"
  by (simp only: targets_exist_map grown_fields)

lemma fold_transfer_total:
  assumes "0 \<le> ov" and "0 < w"
    and "list_all (\<lambda>e. 0 \<le> snd e) al"
    and "list_all (\<lambda>e. fst e \<in> set (map id_acc (fst st))) al"
  shows "total_balance (fst (foldl (transfer s ov w) st al))
           = total_balance (fst st) + ov * (sum_list (map snd al) / w)"
  using assms(3,4)
proof (induction al arbitrary: st)
  case Nil
  then show ?case by simp
next
  case (Cons e al)
  let ?st = "transfer s ov w st e"
  from Cons.prems have e: "0 \<le> snd e" and al: "list_all (\<lambda>e. 0 \<le> snd e) al"
    and t: "fst e \<in> set (map id_acc (fst st))"
    and ts: "list_all (\<lambda>e. fst e \<in> set (map id_acc (fst st))) al" by simp_all
  note step = transfer_step [OF assms(1,2) e, where st = st and s = s]
  from grown_fields(2) [OF step(1)] ts
  have "list_all (\<lambda>e. fst e \<in> set (map id_acc (fst ?st))) al" by simp
  from Cons.IH [OF al this]
  have "total_balance (fst (foldl (transfer s ov w) ?st al))
      = total_balance (fst ?st) + ov * (sum_list (map snd al) / w)" .
  moreover from t have "total_balance (fst ?st) = total_balance (fst st) + ov * (snd e / w)"
    by (simp add: transfer_fst add_balance_total)
  moreover have "ov * ((snd e + sum_list (map snd al)) / w)
      = ov * (snd e / w) + ov * (sum_list (map snd al) / w)"
    by (simp add: add_divide_distrib distrib_left)
  ultimately show ?case by simp
qed

lemma redistribute_source_total:
  assumes "nonneg_weights (fst st)" and "targets_exist (fst st)" and "0 \<le> snd so"
    and "source_allocates (fst st) so"
  shows "total_balance (fst (redistribute_source st so)) = total_balance (fst st) + snd so"
proof (cases "accountMap_get (fst st) (fst so)")
  case None
  with assms(4) show ?thesis by (simp add: source_allocates_def)
next
  case (Some src)
  let ?w = "totalAllocation (allocations src)"
  from Some assms(4) have w: "?w \<noteq> 0" by (simp add: source_allocates_def)
  from Some have src: "src \<in> set (fst st)" by (simp add: accountMap_get_Some)
  with assms(1) have al: "list_all (\<lambda>e. 0 \<le> snd e) (allocations src)"
    by (simp add: nonneg_weights_def list_all_iff)
  from src assms(2) have ts: "list_all (\<lambda>e. fst e \<in> set (map id_acc (fst st))) (allocations src)"
    by (simp add: targets_exist_def list_all_iff)
  from al have "0 \<le> ?w"
    by (auto simp add: totalAllocation_sum_list list_all_iff intro!: sum_list_nonneg)
  with w have pos: "0 < ?w" by simp
  from fold_transfer_total [OF assms(3) pos al ts, of "fst so"] Some w
  show ?thesis by (simp add: redistribute_source_def totalAllocation_sum_list)
qed

lemma fold_redistribute_total:
  assumes "list_all (\<lambda>e. 0 \<le> snd e) ovs" and "nonneg_weights (fst st)"
    and "targets_exist (fst st)" and "list_all (source_allocates (fst st)) ovs"
  shows "total_balance (fst (foldl redistribute_source st ovs))
           = total_balance (fst st) + map_total ovs"
  using assms
proof (induction ovs arbitrary: st)
  case Nil
  then show ?case by (simp add: map_total_def)
next
  case (Cons so ovs)
  let ?st = "redistribute_source st so"
  from Cons.prems have so: "0 \<le> snd so" and ovs: "list_all (\<lambda>e. 0 \<le> snd e) ovs"
    and src: "source_allocates (fst st) so"
    and srcs: "list_all (source_allocates (fst st)) ovs" by simp_all
  from redistribute_source_grown [OF Cons.prems(2) so]
  have g: "grown (fst st) (fst ?st)" by simp
  from g Cons.prems(2) have w: "nonneg_weights (fst ?st)" by (simp add: nonneg_weights_grown)
  from g Cons.prems(3) have t: "targets_exist (fst ?st)" by (simp add: targets_exist_grown)
  from srcs have s: "list_all (source_allocates (fst ?st)) ovs"
    by (simp add: source_allocates_grown [OF g])
  from Cons.IH [OF ovs w t s] redistribute_source_total [OF Cons.prems(2,3) so src]
  show ?case by (simp add: map_total_def)
qed

lemma redistributeOverflow_total:
  assumes "list_all (\<lambda>e. 0 \<le> snd e) ovs" and "nonneg_weights accounts"
    and "targets_exist accounts" and "list_all (source_allocates accounts) ovs"
  shows "total_balance (fst (redistributeOverflow accounts ovs))
           = total_balance accounts + map_total ovs"
  using fold_redistribute_total [of ovs "(accounts, [])"] assms
  by (simp add: redistributeOverflow_def)

lemma shape_cong:
  "map id_acc xs = map id_acc ys \<Longrightarrow> map allocations xs = map allocations ys \<Longrightarrow>
   list_all (\<lambda>a. Q (id_acc a) (allocations a)) xs = list_all (\<lambda>a. Q (id_acc a) (allocations a)) ys"
proof (induction xs arbitrary: ys)
  case Nil
  then show ?case by simp
next
  case (Cons x xs)
  then show ?case by (cases ys) auto
qed

lemma fully_allocated_cong:
  assumes "map id_acc xs = map id_acc ys" and "map allocations xs = map allocations ys"
  shows "overflow_fully_allocated xs its = overflow_fully_allocated ys its"
proof -
  have "list_all (\<lambda>a. id_acc a \<in> set (map fst (overflows r))
                       \<longrightarrow> 100 \<le> totalAllocation (allocations a)) xs
      = list_all (\<lambda>a. id_acc a \<in> set (map fst (overflows r))
                       \<longrightarrow> 100 \<le> totalAllocation (allocations a)) ys" for r :: IterationResult
    using shape_cong [OF assms,
        where Q = "\<lambda>i al. i \<in> set (map fst (overflows r)) \<longrightarrow> 100 \<le> totalAllocation al"]
    by simp
  then show ?thesis by (simp add: overflow_fully_allocated_def)
qed

lemma clamp_ids: "map id_acc (map clamp accounts) = map id_acc accounts"
  by (simp add: clamp_def)

lemma clamped_sources:
  assumes "distinct (map id_acc accounts)"
    and "list_all (\<lambda>a. id_acc a \<in> set (map fst (fst (collect_positive overflow_of accounts)))
                        \<longrightarrow> 100 \<le> totalAllocation (allocations a)) accounts"
  shows "list_all (source_allocates (map clamp accounts))
           (fst (collect_positive overflow_of accounts))"
  unfolding list_all_iff
proof
  fix so
  assume so: "so \<in> set (fst (collect_positive overflow_of accounts))"
  then have "fst so \<in> set (map id_acc accounts)"
    by (auto simp add: collect_positive_distinct [OF assms(1)])
  then have "fst so \<in> set (map id_acc (map clamp accounts))"
    by (simp only: clamp_ids)
  then obtain src where src: "accountMap_get (map clamp accounts) (fst so) = Some src"
    using accountMap_get_None_iff [of "map clamp accounts" "fst so"] by auto
  from accountMap_get_Some [OF src]
  have "src \<in> set (map clamp accounts)" and id: "id_acc src = fst so"
    by simp_all
  then obtain a where a: "a \<in> set accounts" and "src = clamp a" by auto
  then have same: "id_acc src = id_acc a" "allocations src = allocations a"
    by (simp_all add: clamp_def)
  from so have "fst so \<in> set (map fst (fst (collect_positive overflow_of accounts)))" by simp
  with a assms(2) id same have "100 \<le> totalAllocation (allocations src)"
    by (simp add: list_all_iff)
  with src show "source_allocates (map clamp accounts) so"
    by (simp add: source_allocates_def)
qed

lemma overflow_rounds_conserve:
  assumes "distinct (map id_acc accounts)" and "nonneg_weights accounts"
    and "targets_exist accounts"
    and "overflow_fully_allocated accounts (fst (snd (overflow_rounds n i eps accounts)))"
  shows "list_all (\<lambda>r. map_total (balances r) + totalOverflow r = total_balance accounts)
           (fst (snd (overflow_rounds n i eps accounts)))"
  using assms
proof (induction n arbitrary: i accounts)
  case 0
  then show ?case by simp
next
  case (Suc n)
  let ?clamped = "map clamp accounts"
  let ?ovs = "fst (collect_positive overflow_of accounts)"
  let ?next = "fst (redistributeOverflow ?clamped ?ovs)"
  let ?rest = "fst (snd (overflow_rounds n (Suc i) eps ?next))"
  have total: "foldl (\<lambda>s v. s + v) 0 (map_values ?ovs) = map_total ?ovs"
    using foldl_add_sum_list [of "\<lambda>v. v" 0 "map snd ?ovs"]
    by (simp add: map_values_def map_total_def)
  from Suc.prems(1) have dc: "distinct (map id_acc ?clamped)" by (simp only: clamp_ids)
  have head: "map_total (snapshot ?clamped) + map_total ?ovs = total_balance accounts"
    using clamp_total [of accounts]
    by (simp add: snapshot_total [OF dc] overflow_map_distinct [OF Suc.prems(1)])
  show ?case
  proof (cases "map_total ?ovs < eps")
    case True
    with head show ?thesis by (simp add: calculateOverflow_def Let_def total)
  next
    case False
    with Suc.prems(4)
    have h0: "list_all (\<lambda>a. id_acc a \<in> set (map fst ?ovs)
                \<longrightarrow> 100 \<le> totalAllocation (allocations a)) accounts"
      and hr: "overflow_fully_allocated accounts ?rest"
      by (simp_all add: calculateOverflow_def Let_def total overflow_fully_allocated_def)
    from Suc.prems(2) have wc: "nonneg_weights ?clamped"
      by (simp add: nonneg_weights_map clamp_allocations del: map_map)
    from Suc.prems(3) have tc: "targets_exist ?clamped"
      by (simp add: targets_exist_map clamp_allocations clamp_ids del: map_map)
    note g = redistributeOverflow_grown(1) [OF collect_positive_map(1) wc, of overflow_of accounts]
    from redistributeOverflow_total [OF collect_positive_map(1) wc tc
        clamped_sources [OF Suc.prems(1) h0]] head
    have kept: "total_balance ?next = total_balance accounts"
      by (simp add: snapshot_total [OF dc])
    from grown_fields [OF g]
    have ids: "map id_acc ?next = map id_acc accounts"
      and als: "map allocations ?next = map allocations accounts"
      by (simp_all add: clamp_ids clamp_allocations del: map_map)
    from ids Suc.prems(1) have d: "distinct (map id_acc ?next)" by simp
    from g wc have w: "nonneg_weights ?next" by (simp add: nonneg_weights_grown)
    from g tc have t: "targets_exist ?next" by (simp add: targets_exist_grown)
    from hr have h: "overflow_fully_allocated ?next ?rest"
      by (simp add: fully_allocated_cong [OF ids als])
    from Suc.IH [OF d w t h] kept head False show ?thesis
      by (simp add: calculateOverflow_def Let_def total)
  qed
qed

lemma valid_targets_exist: "valid (validateNetwork accounts) \<Longrightarrow> targets_exist accounts"
  by (auto simp add: valid_validateNetwork account_errors_Nil targets_exist_def list_all_iff
      allocation_ok_def)

text \<open>
  Conservation over exact arithmetic, where Phase A hands out the funding in full: for a network
  that the validator accepts and whose account ids are pairwise distinct, non-negative funding,
  and every account that has overflow in some recorded round allocating at least 100, the sum of
  the recorded balances plus the round's \<open>totalOverflow\<close> is, in every iteration record, the
  sum of the initial balances plus the funding. The chain example is an instance.
\<close>

lemma conservation_exact:
  assumes "valid (validateNetwork accounts)"
    and "distinct (map id_acc accounts)"
    and "0 \<le> funding"
    and "phase_A_keeps accounts funding"
    and "runDistribution accounts funding cfg = (final, Inr res)"
    and "overflow_fully_allocated accounts (iterations res)"
    and "r \<in> set (iterations res)"
  shows "map_total (balances r) + totalOverflow r = total_balance accounts + funding"
proof -
  let ?start = "distributeInitial accounts funding"
  have ids: "map id_acc ?start = map id_acc accounts"
    by (rule distributeInitial_ids)
  have als: "map allocations ?start = map allocations accounts"
    by (rule distributeInitial_allocations)
  from assms(1,5)
  have its: "iterations res = fst (snd (overflow_rounds (maxIterations cfg) 0 (epsilon cfg) ?start))"
    by (auto simp add: runDistribution_def Let_def)
  from assms(2) ids have d: "distinct (map id_acc ?start)" by simp
  from valid_nonneg_weights [OF assms(1)] have w: "nonneg_weights ?start"
    by (simp add: nonneg_weights_map als)
  from valid_targets_exist [OF assms(1)] have t: "targets_exist ?start"
    by (simp add: targets_exist_map als ids)
  from assms(6) have h: "overflow_fully_allocated ?start
      (fst (snd (overflow_rounds (maxIterations cfg) 0 (epsilon cfg) ?start)))"
    by (simp add: its fully_allocated_cong [OF ids als])
  from overflow_rounds_conserve [OF d w t h] assms(7)
  have "map_total (balances r) + totalOverflow r = total_balance ?start"
    by (simp add: its list_all_iff)
  with distributeInitial_total [OF assms(2,3,4)] show ?thesis by simp
qed

lemma chain_example_keeps: "phase_A_keeps chain_example 60"
  by (simp add: phase_A_keeps_def collect_positive_total)
     (simp add: fill_minimums_def chain_example_def collect_positive_def shortfall_of_def
      capacity_of_def Let_def or0_def map_get_def)

lemma chain_example_facts:
  "distinct (map id_acc chain_example)"
  "overflow_fully_allocated chain_example (iterations chain_result)"
  "set (iterations chain_result)
     = {iterations chain_result ! 0, iterations chain_result ! 1, iterations chain_result ! 2}"
  "total_balance chain_example = 280"
  by (simp_all add: chain_example_def chain_result_def overflow_fully_allocated_def
      totalAllocation_def total_balance_def)

lemma conservation_exact_chain:
  "map (\<lambda>r. map_total (balances r) + totalOverflow r) (iterations chain_result)
     = [340, 340, 340] \<and>
   total_balance chain_example + 60 = 340"
proof -
  note c = conservation_exact [OF chain_example_valid chain_example_facts(1) _ chain_example_keeps
      chain_example_run chain_example_facts(2)]
  have "map_total (balances r) + totalOverflow r = 340" if "r \<in> set (iterations chain_result)" for r
    using c [OF _ that] by (simp add: chain_example_facts(4))
  then show ?thesis
    by (simp add: chain_example_facts(4)) (simp add: chain_result_def map_total_def)
qed

lemma full_example_initial: "distributeInitial full_example 50 = full_example"
  by (simp add: distributeInitial_def fill_minimums_def full_example_def collect_positive_def
      shortfall_of_def capacity_of_def Let_def or0_def map_get_def)

lemma full_example_rounds:
  "overflow_rounds 3 0 (1 / 100) full_example = (full_example, iterations full_result, True)"
  by (simp add: eval_nat_numeral Let_def full_example_def full_result_def
      calculateOverflow_def collect_positive_def overflow_of_def clamp_def map_values_def
      snapshot_def new_Map_def)

lemma full_example_run:
  "runDistribution full_example 50 chain_config = (full_example, Inr full_result)"
  by (simp add: runDistribution_def full_example_valid full_example_initial Let_def
      chain_config_def full_example_rounds)
     (simp add: full_result_def full_example_def snapshot_def new_Map_def)

lemma full_example_run_fl:
  "runDistribution_fl round64 full_example 50 chain_config = (full_example, Inr full_result)"
  by (simp add: chain_config_def eval_nat_numeral full_example_def full_result_def
      engine_fl_eval round64_values)

text \<open>
  C2: conservation fails where Phase A drops funds. One account at its maximum of 100, with
  funding 50, is a valid network with distinct ids in which no account ever has overflow, so
  the condition on the weights of overflowing accounts holds. \<open>runDistribution\<close> returns a
  single record whose balances sum to 100, while the initial balances plus the funding are 150:
  the difference of 50 is far above the epsilon of 0.01. The run is the same over exact and
  over double arithmetic.
\<close>

theorem conservation_lost_remainder:
  "valid (validateNetwork full_example) \<and>
   distinct (map id_acc full_example) \<and>
   runDistribution full_example 50 chain_config = (full_example, Inr full_result) \<and>
   runDistribution_fl round64 full_example 50 chain_config = (full_example, Inr full_result) \<and>
   map overflows (iterations full_result) = [[]] \<and>
   map (\<lambda>r. map_total (balances r) + totalOverflow r) (iterations full_result) = [100] \<and>
   total_balance full_example + totalFunding full_result = 150 \<and>
   map (\<lambda>r. \<bar>map_total (balances r) + totalOverflow r
                - (total_balance full_example + totalFunding full_result)\<bar>)
     (iterations full_result) = [50] \<and>
   epsilon chain_config < 50"
  by (simp add: full_example_valid full_example_run full_example_run_fl)
     (simp add: full_example_def full_result_def map_total_def total_balance_def
      chain_config_def)

section \<open>Scaling the weights\<close>


lemma scale_account_fields [simp]:
  "id_acc (scale_account c a) = id_acc a"
  "balance (scale_account c a) = balance a"
  "minThreshold (scale_account c a) = minThreshold a"
  "maxThreshold (scale_account c a) = maxThreshold a"
  "allocations (scale_account c a) = scale_allocations c (allocations a)"
  "scale_account c (a\<lparr>balance := b\<rparr>) = (scale_account c a)\<lparr>balance := b\<rparr>"
  by (simp_all add: scale_account_def)

lemma scale_weights_ids: "map id_acc (scale_weights c accounts) = map id_acc accounts"
  by (simp add: scale_weights_def)


lemma amounts_scaled [simp]:
  "shortfall_of (scale_account c a) = shortfall_of a"
  "capacity_of (scale_account c a) = capacity_of a"
  "overflow_of (scale_account c a) = overflow_of a"
  by (simp_all add: shortfall_of_def capacity_of_def overflow_of_def)
































end
